theory Spec2Isabelle
  imports Complex_Main "HOL-Library.Char_ord" "HOL-Library.List_Lexorder" "HOL-Library.AList"
begin

section \<open>Method relationship graph: data model\<close>

text \<open>
  The development follows \<^verbatim>\<open>src/viz/RelationshipGraphViz.js\<close>. JavaScript numbers are
  modelled as exact reals (scores, strengths, zoom scales), counts as naturals, and
  identifiers as strings. A method record is the catalog entry the builder reads; fields
  the code guards with \<^verbatim>\<open>|| []\<close> or \<^verbatim>\<open>?.\<close> are optional, the others are required
  by the catalog's validation.
\<close>

record reference =
  r_year :: "int option"

record methodRecord =
  m_id :: string
  m_name :: string
  m_pipeline_step :: string
  m_modalities :: "string list"
  m_tasks :: "string list option"
  m_tags :: "string list option"
  m_maturity :: string
  m_evidence_type :: string
  m_related_method_ids :: "string list option"
  m_references :: "reference option"

record pipelineStep =
  s_id :: string
  s_name :: string
  s_order :: int

datatype rel_type = Explicit | SameStep | SharedModality | SharedTask | Similar

record style =
  st_color :: string
  st_strokeWidth :: real
  st_dashArray :: "string option"
  st_label :: string

text \<open>The table \<^verbatim>\<open>RELATIONSHIP_TYPES\<close>.\<close>

fun RELATIONSHIP_TYPES :: "rel_type \<Rightarrow> style" where
  "RELATIONSHIP_TYPES Explicit =
     \<lparr>st_color = ''#88c0d0'', st_strokeWidth = 2.5, st_dashArray = None,
      st_label = ''Explicitly Related''\<rparr>"
| "RELATIONSHIP_TYPES SameStep =
     \<lparr>st_color = ''rgba(136, 192, 208, 0.3)'', st_strokeWidth = 1, st_dashArray = Some ''3,3'',
      st_label = ''Same Pipeline Step''\<rparr>"
| "RELATIONSHIP_TYPES SharedModality =
     \<lparr>st_color = ''rgba(163, 190, 140, 0.4)'', st_strokeWidth = 1.5, st_dashArray = Some ''5,3'',
      st_label = ''Shared Modality''\<rparr>"
| "RELATIONSHIP_TYPES SharedTask =
     \<lparr>st_color = ''rgba(180, 142, 173, 0.4)'', st_strokeWidth = 1.5, st_dashArray = Some ''2,2'',
      st_label = ''Shared Task''\<rparr>"
| "RELATIONSHIP_TYPES Similar =
     \<lparr>st_color = ''rgba(235, 203, 139, 0.5)'', st_strokeWidth = 1.5, st_dashArray = Some ''4,4'',
      st_label = ''Similar Methods''\<rparr>"

record link =
  l_source :: string
  l_target :: string
  l_type :: rel_type
  l_strength :: real
  l_style :: style

record node =
  n_id :: string
  n_name :: string
  n_shortName :: string
  n_pipelineStep :: string
  n_modalities :: "string list"
  n_tasks :: "string list"
  n_tags :: "string list"
  n_maturity :: string
  n_evidenceType :: string
  n_relatedIds :: "string list"
  n_year :: "int option"
  n_color :: string
  n_degree :: "nat option"

record catalog =
  methods :: "methodRecord list"
  pipelineSteps :: "pipelineStep list"

record options =
  showExplicitRelations :: bool
  showSimilarMethods :: bool
  similarityThreshold :: real
  showSameStepLinks :: bool
  showSharedModalityLinks :: bool
  showSharedTaskLinks :: bool
  maxSimilarLinks :: nat

record graph =
  g_nodes :: "node list"
  g_links :: "link list"

text \<open>The defaults of the destructured \<^verbatim>\<open>options\<close> argument of \<^verbatim>\<open>buildGraphData\<close>.\<close>

definition default_options :: options where
  "default_options =
     \<lparr>showExplicitRelations = True, showSimilarMethods = True, similarityThreshold = 0.35,
      showSameStepLinks = False, showSharedModalityLinks = False, showSharedTaskLinks = False,
      maxSimilarLinks = 3\<rparr>"

text \<open>\<^verbatim>\<open>x || []\<close> on an optional list.\<close>

fun or_empty :: "'a list option \<Rightarrow> 'a list" where
  "or_empty None = []"
| "or_empty (Some xs) = xs"

text \<open>\<^verbatim>\<open>xs.filter((m) => ys.includes(m))\<close>: the entries of \<open>xs\<close>, with their
  repetitions, that occur in \<open>ys\<close>.\<close>

definition shared :: "string list \<Rightarrow> string list \<Rightarrow> string list" where
  "shared xs ys = filter (\<lambda>m. m \<in> set ys) xs"

section \<open>Similarity scorer\<close>

definition calculateSimilarity :: "methodRecord \<Rightarrow> methodRecord \<Rightarrow> pipelineStep list \<Rightarrow> real" where
  "calculateSimilarity method1 method2 steps =
     (if m_id method1 = m_id method2 then 0
      else
        let score = 0;
            sharedModalities = shared (m_modalities method1) (m_modalities method2);
            score = score + real (length sharedModalities) * 0.25;
            sharedTasks = shared (or_empty (m_tasks method1)) (or_empty (m_tasks method2));
            score = score + real (length sharedTasks) * 0.2;
            sharedTags = shared (or_empty (m_tags method1)) (or_empty (m_tags method2));
            score = score + real (length sharedTags) * 0.1;
            step1 = find (\<lambda>s. s_id s = m_pipeline_step method1) steps;
            step2 = find (\<lambda>s. s_id s = m_pipeline_step method2) steps;
            score =
              (case (step1, step2) of
                 (Some s1, Some s2) \<Rightarrow>
                   let stepDiff = \<bar>s_order s1 - s_order s2\<bar>
                   in if stepDiff = 0 then score + 0.15
                      else if stepDiff = 1 then score + 0.05
                      else score
               | _ \<Rightarrow> score);
            score = (if m_maturity method1 = m_maturity method2 then score + 0.05 else score);
            score =
              (if m_evidence_type method1 = m_evidence_type method2 then score + 0.05
               else score)
        in min score 1)"

text \<open>The term that the proximity of the two pipeline steps adds to the score, as a function
  of the two results of \<^verbatim>\<open>pipelineSteps.find\<close>.\<close>

definition step_bonus :: "pipelineStep option \<Rightarrow> pipelineStep option \<Rightarrow> real" where
  "step_bonus step1 step2 =
     (case (step1, step2) of
        (Some s1, Some s2) \<Rightarrow>
          if \<bar>s_order s1 - s_order s2\<bar> = 0 then 0.15
          else if \<bar>s_order s1 - s_order s2\<bar> = 1 then 0.05 else 0
      | _ \<Rightarrow> 0)"

section \<open>Graph builder\<close>

record build_state =
  bs_links :: "link list"
  bs_addedLinks :: "string set"

text \<open>\<^verbatim>\<open>[source, target].sort().join('--')\<close>: the two identifiers in string order,
  joined by two hyphens.\<close>

definition link_key :: "string \<Rightarrow> string \<Rightarrow> string" where
  "link_key source target =
     (if source \<le> target then source @ ''--'' @ target else target @ ''--'' @ source)"

definition addLink :: "build_state \<Rightarrow> string \<Rightarrow> string \<Rightarrow> rel_type \<Rightarrow> real \<Rightarrow> build_state" where
  "addLink st source target type strength =
     (let key = link_key source target
      in if key \<notin> bs_addedLinks st \<and> source \<noteq> target
         then \<lparr>bs_links = bs_links st @
                  [\<lparr>l_source = source, l_target = target, l_type = type, l_strength = strength,
                    l_style = RELATIONSHIP_TYPES type\<rparr>],
               bs_addedLinks = insert key (bs_addedLinks st)\<rparr>
         else st)"

text \<open>The pairs \<open>(xs[i], xs[j])\<close> with \<open>i < j\<close>, in the order in which the nested
  \<^verbatim>\<open>for (i ...) for (j = i + 1 ...)\<close> loops visit them.\<close>

fun pairs :: "'a list \<Rightarrow> ('a \<times> 'a) list" where
  "pairs [] = []"
| "pairs (x # xs) = map (Pair x) xs @ pairs xs"

text \<open>\<^verbatim>\<open>map.get(k) || 0\<close> on a map of counters.\<close>

definition get_or_zero :: "(string \<rightharpoonup> nat) \<Rightarrow> string \<Rightarrow> nat" where
  "get_or_zero m k = (case m k of None \<Rightarrow> 0 | Some c \<Rightarrow> c)"

definition TOKENS_accent :: string where
  "TOKENS_accent = ''#88c0d0''"

text \<open>The table \<^verbatim>\<open>STEP_COLORS\<close> is imported from \<^verbatim>\<open>PipelineViz\<close>, which is not part of
  the sources at hand; it is a parameter \<open>colors\<close> of everything that reads it.\<close>

definition make_node :: "(string \<rightharpoonup> string) \<Rightarrow> methodRecord \<Rightarrow> node" where
  "make_node colors method =
     \<lparr>n_id = m_id method,
      n_name = m_name method,
      n_shortName =
        (if length (m_name method) > 30 then take 27 (m_name method) @ ''...''
         else m_name method),
      n_pipelineStep = m_pipeline_step method,
      n_modalities = m_modalities method,
      n_tasks = or_empty (m_tasks method),
      n_tags = or_empty (m_tags method),
      n_maturity = m_maturity method,
      n_evidenceType = m_evidence_type method,
      n_relatedIds = or_empty (m_related_method_ids method),
      n_year = (case m_references method of None \<Rightarrow> None | Some r \<Rightarrow> r_year r),
      n_color =
        (case colors (m_pipeline_step method) of
           None \<Rightarrow> TOKENS_accent
         | Some c \<Rightarrow> if c = [] then TOKENS_accent else c),
      n_degree = None\<rparr>"

text \<open>\<^verbatim>\<open>new Map(nodes.map((n) => [n.id, n]))\<close>: a later node with the same id replaces an
  earlier one.\<close>

definition make_nodeMap :: "node list \<Rightarrow> (string \<rightharpoonup> node)" where
  "make_nodeMap nodes = map_of (rev (map (\<lambda>n. (n_id n, n)) nodes))"

text \<open>Stage 1, explicit relationships.\<close>

definition explicit_stage :: "methodRecord list \<Rightarrow> (string \<rightharpoonup> node) \<Rightarrow> build_state \<Rightarrow> build_state" where
  "explicit_stage ms nodeMap st =
     fold (\<lambda>method.
        fold (\<lambda>relatedId st.
            if nodeMap relatedId \<noteq> None then addLink st (m_id method) relatedId Explicit 1
            else st)
          (or_empty (m_related_method_ids method)))
       ms st"

text \<open>Stage 2, methods of the same pipeline step.\<close>

definition sameStep_stage :: "methodRecord list \<Rightarrow> pipelineStep list \<Rightarrow> build_state \<Rightarrow> build_state" where
  "sameStep_stage ms steps st =
     fold (\<lambda>step st.
        let stepMethods = filter (\<lambda>m. m_pipeline_step m = s_id step) ms
        in fold (\<lambda>(a, b) st. addLink st (m_id a) (m_id b) SameStep 0.3) (pairs stepMethods) st)
       steps st"

text \<open>Stage 3, shared modalities across different steps.\<close>

definition sharedModality_stage :: "methodRecord list \<Rightarrow> build_state \<Rightarrow> build_state" where
  "sharedModality_stage ms st =
     fold (\<lambda>(a, b) st.
        let sh = shared (m_modalities a) (m_modalities b)
        in if length sh > 0 \<and> m_pipeline_step a \<noteq> m_pipeline_step b
           then addLink st (m_id a) (m_id b) SharedModality (0.4 + real (length sh) * 0.1)
           else st)
       (pairs ms) st"

text \<open>Stage 4, shared tasks across different steps.\<close>

definition sharedTask_stage :: "methodRecord list \<Rightarrow> build_state \<Rightarrow> build_state" where
  "sharedTask_stage ms st =
     fold (\<lambda>(a, b) st.
        let sh = shared (or_empty (m_tasks a)) (or_empty (m_tasks b))
        in if length sh > 0 \<and> m_pipeline_step a \<noteq> m_pipeline_step b
           then addLink st (m_id a) (m_id b) SharedTask (0.3 + real (length sh) * 0.15)
           else st)
       (pairs ms) st"

text \<open>Stage 5, computed similarity: the candidate pairs at or above the threshold, sorted by
  descending score (\<^verbatim>\<open>Array.prototype.sort\<close> is stable, as \<^const>\<open>sort_key\<close> is), then
  added greedily under the per-node counters.\<close>

record similarity =
  sim_source :: string
  sim_target :: string
  sim_value :: real

definition collect_similarities :: "methodRecord list \<Rightarrow> pipelineStep list \<Rightarrow> real \<Rightarrow> similarity list" where
  "collect_similarities ms steps threshold =
     fold (\<lambda>(a, b) similarities.
        let sim = calculateSimilarity a b steps
        in if sim \<ge> threshold
           then similarities @ [\<lparr>sim_source = m_id a, sim_target = m_id b, sim_value = sim\<rparr>]
           else similarities)
       (pairs ms) []"

definition similar_step ::
  "nat \<Rightarrow> similarity \<Rightarrow> build_state \<times> (string \<rightharpoonup> nat) \<Rightarrow> build_state \<times> (string \<rightharpoonup> nat)" where
  "similar_step maxLinks s = (\<lambda>(st, nodeLinkCounts).
     let sourceCount = get_or_zero nodeLinkCounts (sim_source s);
         targetCount = get_or_zero nodeLinkCounts (sim_target s)
     in if sourceCount < maxLinks \<and> targetCount < maxLinks
        then (addLink st (sim_source s) (sim_target s) Similar (sim_value s),
              nodeLinkCounts(sim_source s \<mapsto> sourceCount + 1, sim_target s \<mapsto> targetCount + 1))
        else (st, nodeLinkCounts))"

definition similar_stage ::
  "methodRecord list \<Rightarrow> pipelineStep list \<Rightarrow> real \<Rightarrow> nat \<Rightarrow> build_state \<Rightarrow> build_state" where
  "similar_stage ms steps threshold maxLinks st =
     (let similarities = collect_similarities ms steps threshold;
          sorted = sort_key (\<lambda>s. - sim_value s) similarities
      in fst (fold (similar_step maxLinks) sorted (st, Map.empty)))"

text \<open>Node degrees: every link increments the counter of its source, then of its target.\<close>

definition degree_step :: "link \<Rightarrow> (string \<rightharpoonup> nat) \<Rightarrow> (string \<rightharpoonup> nat)" where
  "degree_step l degreeMap =
     (let d1 = degreeMap(l_source l \<mapsto> get_or_zero degreeMap (l_source l) + 1)
      in d1(l_target l \<mapsto> get_or_zero d1 (l_target l) + 1))"

definition buildGraphData :: "(string \<rightharpoonup> string) \<Rightarrow> catalog \<Rightarrow> options \<Rightarrow> graph" where
  "buildGraphData colors data opts =
     (let ms = methods data;
          steps = pipelineSteps data;
          nodes = map (make_node colors) ms;
          nodeMap = make_nodeMap nodes;
          st = \<lparr>bs_links = [], bs_addedLinks = {}\<rparr>;
          st = (if showExplicitRelations opts then explicit_stage ms nodeMap st else st);
          st = (if showSameStepLinks opts then sameStep_stage ms steps st else st);
          st = (if showSharedModalityLinks opts then sharedModality_stage ms st else st);
          st = (if showSharedTaskLinks opts then sharedTask_stage ms st else st);
          st = (if showSimilarMethods opts
                then similar_stage ms steps (similarityThreshold opts) (maxSimilarLinks opts) st
                else st);
          degreeMap = fold degree_step (bs_links st) Map.empty
      in \<lparr>g_nodes = map (\<lambda>node. node\<lparr>n_degree := Some (get_or_zero degreeMap (n_id node))\<rparr>) nodes,
          g_links = bs_links st\<rparr>)"

section \<open>Cluster regions\<close>

record cluster =
  c_id :: string
  c_name :: string
  c_color :: "string option"
  c_nodes :: "node list"

text \<open>The \<^verbatim>\<open>Map\<close> of clusters keeps its keys in insertion order and \<^verbatim>\<open>set\<close> on a key
  that is already there replaces the value in place: an association list under
  \<^const>\<open>AList.update\<close>. Pushing a node onto \<^verbatim>\<open>cluster.nodes\<close> changes the object the map
  holds, which is an update at the same key.\<close>

definition computeClusterHulls ::
  "(string \<rightharpoonup> string) \<Rightarrow> node list \<Rightarrow> pipelineStep list \<Rightarrow> cluster list" where
  "computeClusterHulls colors nodes steps =
     (let clusters =
            fold (\<lambda>step clusters.
                AList.update (s_id step)
                  \<lparr>c_id = s_id step, c_name = s_name step, c_color = colors (s_id step),
                   c_nodes = []\<rparr> clusters)
              steps [];
          clusters =
            fold (\<lambda>node clusters.
                case map_of clusters (n_pipelineStep node) of
                  None \<Rightarrow> clusters
                | Some cluster \<Rightarrow>
                    AList.update (n_pipelineStep node)
                      (cluster\<lparr>c_nodes := c_nodes cluster @ [node]\<rparr>) clusters)
              nodes clusters
      in filter (\<lambda>c. length (c_nodes c) > 0) (map snd clusters))"

text \<open>The two loop bodies of \<^verbatim>\<open>computeClusterHulls\<close> by name: the cluster a step starts with,
  and the push of one node.\<close>

definition empty_cluster :: "(string \<rightharpoonup> string) \<Rightarrow> pipelineStep \<Rightarrow> cluster" where
  "empty_cluster colors step =
     \<lparr>c_id = s_id step, c_name = s_name step, c_color = colors (s_id step), c_nodes = []\<rparr>"

definition push_node :: "node \<Rightarrow> (string \<times> cluster) list \<Rightarrow> (string \<times> cluster) list" where
  "push_node node clusters =
     (case map_of clusters (n_pipelineStep node) of
        None \<Rightarrow> clusters
      | Some cluster \<Rightarrow>
          AList.update (n_pipelineStep node) (cluster\<lparr>c_nodes := c_nodes cluster @ [node]\<rparr>) clusters)"

section \<open>Semantic zoom\<close>

record zoom_levels =
  ABSTRACT :: real
  MINIMAL :: real
  NORMAL :: real
  DETAILED :: real
  FULL :: real

definition ZOOM_LEVELS :: zoom_levels where
  "ZOOM_LEVELS = \<lparr>ABSTRACT = 0.45, MINIMAL = 0.7, NORMAL = 1.0, DETAILED = 1.5, FULL = 2.2\<rparr>"

definition initialScale :: real where
  "initialScale = 0.85"

definition getZoomLevelName :: "real \<Rightarrow> string" where
  "getZoomLevelName scale =
     (if scale < ABSTRACT ZOOM_LEVELS then ''Abstract''
      else if scale < MINIMAL ZOOM_LEVELS then ''Minimal''
      else if scale < DETAILED ZOOM_LEVELS then ''Normal''
      else if scale < FULL ZOOM_LEVELS then ''Detailed''
      else ''Full Detail'')"

text \<open>A detail card is attached to one node; it shows the full name in the full view and the
  short name otherwise, and the badges of the full view only when \<open>dc_full\<close> holds.\<close>

record detail_card =
  dc_node :: string
  dc_name :: string
  dc_full :: bool

definition updateDetailCards :: "bool \<Rightarrow> node list \<Rightarrow> bool \<Rightarrow> bool \<Rightarrow> detail_card list" where
  "updateDetailCards nodeGroupCreated nodes showDetailed showFull =
     (if \<not> nodeGroupCreated then []
      else if \<not> showDetailed \<and> \<not> showFull then []
      else map (\<lambda>d. \<lparr>dc_node = n_id d,
                      dc_name = (if showFull then n_name d else n_shortName d),
                      dc_full = showFull\<rparr>) nodes)"

text \<open>What one call of \<^verbatim>\<open>updateSemanticZoom\<close> sets: the indicator and the hint always, the
  attributes of the graph elements once these have been created. The radius of a node circle
  and the width of a link are functions of the node's base radius and the link's own width.\<close>

record element_view =
  ev_nodeRadius :: "real \<Rightarrow> real"
  ev_nodeStrokeWidth :: real
  ev_modalityOpacity :: real
  ev_modalityRadius :: real
  ev_linkOpacity :: real
  ev_linkStrokeWidth :: "real \<Rightarrow> real"
  ev_hullFillOpacity :: real
  ev_hullStrokeOpacity :: real
  ev_hullStrokeWidth :: real
  ev_labelFontSize :: string
  ev_labelOpacity :: real
  ev_detailCards :: "detail_card list"

record zoom_view =
  zv_levelName :: string
  zv_percent :: int
  zv_hintOpacity :: real
  zv_elements :: "element_view option"

definition updateSemanticZoom :: "bool \<Rightarrow> node list \<Rightarrow> real \<Rightarrow> zoom_view" where
  "updateSemanticZoom created nodes scale =
     (let isAbstract = scale < ABSTRACT ZOOM_LEVELS;
          isMinimal = scale \<ge> ABSTRACT ZOOM_LEVELS \<and> scale < MINIMAL ZOOM_LEVELS;
          isNormal = scale \<ge> MINIMAL ZOOM_LEVELS \<and> scale < DETAILED ZOOM_LEVELS;
          isDetailed = scale \<ge> DETAILED ZOOM_LEVELS \<and> scale < FULL ZOOM_LEVELS;
          isFull = scale \<ge> FULL ZOOM_LEVELS
      in \<lparr>zv_levelName = getZoomLevelName scale,
          zv_percent = \<lfloor>scale * 100 + 1 / 2\<rfloor>,
          zv_hintOpacity = (if scale = initialScale then 1 else 0),
          zv_elements =
            (if \<not> created then None
             else Some
               \<lparr>ev_nodeRadius = (\<lambda>baseRadius.
                    if isAbstract then baseRadius * 0.6
                    else if isMinimal then baseRadius * 0.8
                    else baseRadius),
                ev_nodeStrokeWidth = (if isAbstract then 1 else 2),
                ev_modalityOpacity = (if isAbstract \<or> isMinimal then 0 else 0.8),
                ev_modalityRadius = (if isNormal then 4 else if isDetailed then 5 else 6),
                ev_linkOpacity = (if isAbstract then 0.2 else if isMinimal then 0.4 else 0.6),
                ev_linkStrokeWidth = (\<lambda>strokeWidth.
                    if isAbstract then 0.5
                    else if isMinimal then strokeWidth * 0.7
                    else strokeWidth),
                ev_hullFillOpacity = (if isAbstract then 0.15 else if isMinimal then 0.12 else 0.08),
                ev_hullStrokeOpacity = (if isAbstract then 0.5 else if isMinimal then 0.4 else 0.3),
                ev_hullStrokeWidth = (if isAbstract then 3 else 2),
                ev_labelFontSize =
                  (if isAbstract then ''16px'' else if isMinimal then ''14px'' else ''12px''),
                ev_labelOpacity =
                  (if isAbstract then 0.9 else if isMinimal then 0.8
                   else if isFull then 0.4 else 0.7),
                ev_detailCards = updateDetailCards created nodes isDetailed isFull\<rparr>)\<rparr>)"

section \<open>The handle of a created graph\<close>

text \<open>\<^verbatim>\<open>createRelationshipGraph\<close> returns an object of closures. Which properties the object
  has is what matters to a caller: calling a property that is absent raises a
  \<^verbatim>\<open>TypeError\<close>. A closure is modelled by the commands it issues to the drawing library.\<close>

datatype handle_op = Update | Destroy | ZoomToFit | ZoomIn | ZoomOut | ResetSimulation

datatype command =
    Recreate
  | SimulationStop
  | ClearContainer
  | ZoomTransformInitial
  | ZoomScaleBy real
  | SimulationRestart real

datatype js_error = TypeError

type_synonym handle = "handle_op \<Rightarrow> command list option"

definition createRelationshipGraph :: "real \<Rightarrow> handle" where
  "createRelationshipGraph containerWidth =
     (if containerWidth = 0
      then (\<lambda>op. case op of Update \<Rightarrow> Some [] | Destroy \<Rightarrow> Some [] | _ \<Rightarrow> None)
      else (\<lambda>op. case op of
              Update \<Rightarrow> Some [Recreate]
            | Destroy \<Rightarrow> Some [SimulationStop, ClearContainer]
            | ZoomToFit \<Rightarrow> Some [ZoomTransformInitial]
            | ZoomIn \<Rightarrow> Some [ZoomScaleBy 1.3]
            | ZoomOut \<Rightarrow> Some [ZoomScaleBy 0.7]
            | ResetSimulation \<Rightarrow> Some [SimulationRestart 1]))"

text \<open>\<^verbatim>\<open>handle.op()\<close> as the wrapper component calls it.\<close>

definition call_handle :: "handle \<Rightarrow> handle_op \<Rightarrow> js_error + command list" where
  "call_handle h op = (case h op of None \<Rightarrow> Inl TypeError | Some cs \<Rightarrow> Inr cs)"

section \<open>The calls of \<open>addLink\<close> as a list\<close>

text \<open>Every stage of the builder is a sequence of calls of \<^const>\<open>addLink\<close>. An attempt is
  the argument tuple of one call; \<open>link_attempts\<close> lists the calls of a whole build in the
  order in which the builder makes them, and \<open>accepted\<close> keeps those that pass the test of
  \<^const>\<open>addLink\<close>. That the builder computes exactly this is lemma \<open>buildGraphData_links\<close>.\<close>

type_synonym attempt = "string \<times> string \<times> rel_type \<times> real"

definition attempt_link :: "attempt \<Rightarrow> link" where
  "attempt_link = (\<lambda>(s, t, ty, w).
     \<lparr>l_source = s, l_target = t, l_type = ty, l_strength = w, l_style = RELATIONSHIP_TYPES ty\<rparr>)"

definition attempt_type :: "attempt \<Rightarrow> rel_type" where
  "attempt_type = (\<lambda>(s, t, ty, w). ty)"

definition attempt_pair :: "attempt \<Rightarrow> string set" where
  "attempt_pair = (\<lambda>(s, t, ty, w). {s, t})"

definition run_attempts :: "attempt list \<Rightarrow> build_state \<Rightarrow> build_state" where
  "run_attempts atts st = fold (\<lambda>(s, t, ty, w) st. addLink st s t ty w) atts st"

fun accepted :: "string set \<Rightarrow> attempt list \<Rightarrow> attempt list" where
  "accepted seen [] = []"
| "accepted seen ((s, t, ty, w) # as) =
     (if link_key s t \<notin> seen \<and> s \<noteq> t
      then (s, t, ty, w) # accepted (insert (link_key s t) seen) as
      else accepted seen as)"

definition explicit_attempts :: "methodRecord list \<Rightarrow> attempt list" where
  "explicit_attempts ms =
     concat (map (\<lambda>method.
        map (\<lambda>relatedId. (m_id method, relatedId, Explicit, 1))
          (filter (\<lambda>relatedId. relatedId \<in> set (map m_id ms))
             (or_empty (m_related_method_ids method))))
       ms)"

definition sameStep_attempts :: "methodRecord list \<Rightarrow> pipelineStep list \<Rightarrow> attempt list" where
  "sameStep_attempts ms steps =
     concat (map (\<lambda>step.
        map (\<lambda>(a, b). (m_id a, m_id b, SameStep, 0.3))
          (pairs (filter (\<lambda>m. m_pipeline_step m = s_id step) ms)))
       steps)"

definition sharedModality_attempts :: "methodRecord list \<Rightarrow> attempt list" where
  "sharedModality_attempts ms =
     map (\<lambda>(a, b). (m_id a, m_id b, SharedModality,
            0.4 + real (length (shared (m_modalities a) (m_modalities b))) * 0.1))
       (filter (\<lambda>(a, b). length (shared (m_modalities a) (m_modalities b)) > 0
                  \<and> m_pipeline_step a \<noteq> m_pipeline_step b)
          (pairs ms))"

definition sharedTask_attempts :: "methodRecord list \<Rightarrow> attempt list" where
  "sharedTask_attempts ms =
     map (\<lambda>(a, b). (m_id a, m_id b, SharedTask,
            0.3 + real (length (shared (or_empty (m_tasks a)) (or_empty (m_tasks b)))) * 0.15))
       (filter (\<lambda>(a, b). length (shared (or_empty (m_tasks a)) (or_empty (m_tasks b))) > 0
                  \<and> m_pipeline_step a \<noteq> m_pipeline_step b)
          (pairs ms))"

fun capped_attempts :: "nat \<Rightarrow> (string \<rightharpoonup> nat) \<Rightarrow> similarity list \<Rightarrow> attempt list" where
  "capped_attempts maxLinks counts [] = []"
| "capped_attempts maxLinks counts (s # ss) =
     (if get_or_zero counts (sim_source s) < maxLinks
         \<and> get_or_zero counts (sim_target s) < maxLinks
      then (sim_source s, sim_target s, Similar, sim_value s) #
           capped_attempts maxLinks
             (counts(sim_source s \<mapsto> get_or_zero counts (sim_source s) + 1,
                     sim_target s \<mapsto> get_or_zero counts (sim_target s) + 1)) ss
      else capped_attempts maxLinks counts ss)"

definition similar_attempts ::
  "methodRecord list \<Rightarrow> pipelineStep list \<Rightarrow> real \<Rightarrow> nat \<Rightarrow> attempt list" where
  "similar_attempts ms steps threshold maxLinks =
     capped_attempts maxLinks Map.empty
       (sort_key (\<lambda>s. - sim_value s) (collect_similarities ms steps threshold))"

definition link_attempts :: "catalog \<Rightarrow> options \<Rightarrow> attempt list" where
  "link_attempts data opts =
     (if showExplicitRelations opts then explicit_attempts (methods data) else []) @
     (if showSameStepLinks opts then sameStep_attempts (methods data) (pipelineSteps data)
      else []) @
     (if showSharedModalityLinks opts then sharedModality_attempts (methods data) else []) @
     (if showSharedTaskLinks opts then sharedTask_attempts (methods data) else []) @
     (if showSimilarMethods opts
      then similar_attempts (methods data) (pipelineSteps data) (similarityThreshold opts)
             (maxSimilarLinks opts)
      else [])"

text \<open>The unordered pair of endpoints of a link, and the position of a relationship type in
  the order of the stages.\<close>

definition link_pair :: "link \<Rightarrow> string set" where
  "link_pair l = {l_source l, l_target l}"

fun stage_rank :: "rel_type \<Rightarrow> nat" where
  "stage_rank Explicit = 0"
| "stage_rank SameStep = 1"
| "stage_rank SharedModality = 2"
| "stage_rank SharedTask = 3"
| "stage_rank Similar = 4"

text \<open>The links of a graph that touch an identifier.\<close>

definition incident :: "string \<Rightarrow> link \<Rightarrow> bool" where
  "incident k l \<longleftrightarrow> l_source l = k \<or> l_target l = k"

text \<open>A method whose related-id list keeps only the identifiers in \<open>known\<close>.\<close>

definition drop_unresolved :: "string set \<Rightarrow> methodRecord \<Rightarrow> methodRecord" where
  "drop_unresolved known m =
     m\<lparr>m_related_method_ids := map_option (filter (\<lambda>r. r \<in> known)) (m_related_method_ids m)\<rparr>"

section \<open>A small catalog\<close>

definition step_collect :: pipelineStep where
  "step_collect = \<lparr>s_id = ''collect'', s_name = ''Collect'', s_order = 0\<rparr>"

definition step_abstract :: pipelineStep where
  "step_abstract = \<lparr>s_id = ''abstract'', s_name = ''Abstract'', s_order = 1\<rparr>"

definition method_a :: methodRecord where
  "method_a =
     \<lparr>m_id = ''a'', m_name = ''Alpha'', m_pipeline_step = ''collect'',
      m_modalities = [''text'', ''image''], m_tasks = Some [''cleaning''],
      m_tags = Some [''nlp''], m_maturity = ''emerging'', m_evidence_type = ''empirical'',
      m_related_method_ids = Some [''b'', ''a'', ''ghost''], m_references = None\<rparr>"

definition method_b :: methodRecord where
  "method_b =
     \<lparr>m_id = ''b'', m_name = ''Beta'', m_pipeline_step = ''collect'',
      m_modalities = [''text'', ''image''], m_tasks = Some [''cleaning''],
      m_tags = None, m_maturity = ''emerging'', m_evidence_type = ''empirical'',
      m_related_method_ids = None, m_references = Some \<lparr>r_year = Some 2024\<rparr>\<rparr>"

definition method_c :: methodRecord where
  "method_c =
     \<lparr>m_id = ''c'', m_name = ''Gamma'', m_pipeline_step = ''abstract'',
      m_modalities = [''text'', ''image''], m_tasks = Some [''cleaning''],
      m_tags = Some [''nlp''], m_maturity = ''established'', m_evidence_type = ''empirical'',
      m_related_method_ids = Some [], m_references = None\<rparr>"

definition small_catalog :: catalog where
  "small_catalog =
     \<lparr>methods = [method_a, method_b, method_c], pipelineSteps = [step_collect, step_abstract]\<rparr>"

text \<open>Two records that differ only in a repeated modality entry.\<close>

definition method_twice :: methodRecord where
  "method_twice =
     \<lparr>m_id = ''p'', m_name = ''P'', m_pipeline_step = ''collect'',
      m_modalities = [''text'', ''text''], m_tasks = None, m_tags = None,
      m_maturity = ''emerging'', m_evidence_type = ''empirical'',
      m_related_method_ids = None, m_references = None\<rparr>"

definition method_once :: methodRecord where
  "method_once =
     \<lparr>m_id = ''q'', m_name = ''Q'', m_pipeline_step = ''collect'',
      m_modalities = [''text''], m_tasks = None, m_tags = None,
      m_maturity = ''emerging'', m_evidence_type = ''empirical'',
      m_related_method_ids = None, m_references = None\<rparr>"

text \<open>The default options with every optional stage switched on.\<close>

definition all_options :: options where
  "all_options =
     default_options\<lparr>showSameStepLinks := True, showSharedModalityLinks := True,
       showSharedTaskLinks := True\<rparr>"

text \<open>The default options with a threshold that no pair of the small catalog reaches, and
  all options with a per-node maximum of zero.\<close>

definition strict_options :: options where
  "strict_options = default_options\<lparr>similarityThreshold := 0.99\<rparr>"

definition zero_cap_options :: options where
  "zero_cap_options = all_options\<lparr>maxSimilarLinks := 0\<rparr>"

text \<open>A method whose pipeline step is not among the steps of the small catalog, and the nodes
  of the four methods.\<close>

definition method_orphan :: methodRecord where
  "method_orphan =
     \<lparr>m_id = ''o'', m_name = ''Omega'', m_pipeline_step = ''nowhere'',
      m_modalities = [''audio''], m_tasks = None, m_tags = None,
      m_maturity = ''emerging'', m_evidence_type = ''empirical'',
      m_related_method_ids = None, m_references = None\<rparr>"

definition example_nodes :: "node list" where
  "example_nodes = map (make_node Map.empty) [method_a, method_b, method_c, method_orphan]"

section \<open>Properties of the builder\<close>

subsection \<open>The builder as a run of attempts\<close>

lemma run_attempts_Nil [simp]: "run_attempts [] st = st"
  by (simp add: run_attempts_def)

lemma run_attempts_Cons [simp]:
  "run_attempts ((s, t, ty, w) # as) st = run_attempts as (addLink st s t ty w)"
  by (simp add: run_attempts_def)

lemma run_attempts_append [simp]:
  "run_attempts (as @ bs) st = run_attempts bs (run_attempts as st)"
  by (simp add: run_attempts_def)

lemma fold_related_run:
  "fold (\<lambda>relatedId st. if P relatedId then addLink st i relatedId ty w else st) rs st
     = run_attempts (map (\<lambda>relatedId. (i, relatedId, ty, w)) (filter P rs)) st"
  by (induction rs arbitrary: st) simp_all

lemma explicit_stage_run_gen:
  "explicit_stage ms nodeMap st
     = run_attempts (concat (map (\<lambda>method.
          map (\<lambda>relatedId. (m_id method, relatedId, Explicit, 1))
            (filter (\<lambda>relatedId. nodeMap relatedId \<noteq> None)
               (or_empty (m_related_method_ids method)))) ms)) st"
  unfolding explicit_stage_def
  by (induction ms arbitrary: st)
     (simp_all only: fold_related_run fold_simps list.map concat.simps run_attempts_append
        run_attempts_Nil)

lemma make_nodeMap_has:
  "make_nodeMap (map (make_node colors) ms) r \<noteq> None \<longleftrightarrow> r \<in> set (map m_id ms)"
proof -
  have "make_nodeMap (map (make_node colors) ms) r \<noteq> None
          \<longleftrightarrow> r \<in> fst ` set (rev (map (\<lambda>n. (n_id n, n)) (map (make_node colors) ms)))"
    unfolding make_nodeMap_def by (simp only: map_of_eq_None_iff not_not)
  also have "\<dots> \<longleftrightarrow> r \<in> set (map m_id ms)"
    by (force simp: make_node_def image_iff)
  finally show ?thesis .
qed

lemma explicit_stage_run:
  "explicit_stage ms (make_nodeMap (map (make_node colors) ms)) st
     = run_attempts (explicit_attempts ms) st"
  unfolding explicit_stage_run_gen explicit_attempts_def
  by (simp only: make_nodeMap_has)

lemma fold_pairs_run:
  "fold (\<lambda>(a, b) st. if P a b then addLink st (m_id a) (m_id b) ty (w a b) else st) ps st
     = run_attempts (map (\<lambda>(a, b). (m_id a, m_id b, ty, w a b)) (filter (\<lambda>(a, b). P a b) ps)) st"
  by (induction ps arbitrary: st) auto

lemma fold_all_pairs_run:
  "fold (\<lambda>(a, b) st. addLink st (m_id a) (m_id b) ty w) ps st
     = run_attempts (map (\<lambda>(a, b). (m_id a, m_id b, ty, w)) ps) st"
  by (induction ps arbitrary: st) auto

lemma sameStep_stage_run:
  "sameStep_stage ms steps st = run_attempts (sameStep_attempts ms steps) st"
  unfolding sameStep_stage_def sameStep_attempts_def Let_def
  by (induction steps arbitrary: st) (simp_all add: fold_all_pairs_run)

lemma sharedModality_stage_run:
  "sharedModality_stage ms st = run_attempts (sharedModality_attempts ms) st"
  unfolding sharedModality_stage_def sharedModality_attempts_def Let_def
  by (rule fold_pairs_run)

lemma sharedTask_stage_run:
  "sharedTask_stage ms st = run_attempts (sharedTask_attempts ms) st"
  unfolding sharedTask_stage_def sharedTask_attempts_def Let_def
  by (rule fold_pairs_run)

lemma fold_similar_step:
  "fst (fold (similar_step maxLinks) ss (st, counts))
     = run_attempts (capped_attempts maxLinks counts ss) st"
  by (induction ss arbitrary: st counts) (simp_all add: similar_step_def Let_def)

lemma similar_stage_run:
  "similar_stage ms steps threshold maxLinks st
     = run_attempts (similar_attempts ms steps threshold maxLinks) st"
  by (simp add: similar_stage_def similar_attempts_def Let_def fold_similar_step)

lemma run_attempts_links:
  "bs_links (run_attempts atts st)
     = bs_links st @ map attempt_link (accepted (bs_addedLinks st) atts)"
  by (induction atts arbitrary: st) (auto simp: addLink_def Let_def attempt_link_def)

lemma buildGraphData_links:
  "g_links (buildGraphData colors data opts)
     = map attempt_link (accepted {} (link_attempts data opts))"
proof -
  have "g_links (buildGraphData colors data opts)
          = bs_links (run_attempts (link_attempts data opts) \<lparr>bs_links = [], bs_addedLinks = {}\<rparr>)"
    unfolding buildGraphData_def link_attempts_def Let_def
    by (simp add: explicit_stage_run sameStep_stage_run sharedModality_stage_run
        sharedTask_stage_run similar_stage_run)
  then show ?thesis by (simp add: run_attempts_links)
qed

subsection \<open>Accepted attempts\<close>

lemma attempt_link_sel [simp]:
  "l_source (attempt_link (s, t, ty, w)) = s"
  "l_target (attempt_link (s, t, ty, w)) = t"
  "l_type (attempt_link (s, t, ty, w)) = ty"
  "l_strength (attempt_link (s, t, ty, w)) = w"
  by (simp_all add: attempt_link_def)

lemma attempt_type_simp [simp]: "attempt_type (s, t, ty, w) = ty"
  by (simp add: attempt_type_def)

lemma attempt_pair_simp [simp]: "attempt_pair (s, t, ty, w) = {s, t}"
  by (simp add: attempt_pair_def)

lemma link_pair_attempt_link: "link_pair (attempt_link a) = attempt_pair a"
  by (cases a) (simp add: link_pair_def)

lemma l_type_attempt_link: "l_type (attempt_link a) = attempt_type a"
  by (cases a) simp

lemma link_key_commute: "link_key s t = link_key t s"
  by (auto simp: link_key_def)

lemma pair_eq_key_eq: "{s, t} = {s', t'} \<Longrightarrow> link_key s t = link_key s' t'"
  by (auto simp: doubleton_eq_iff link_key_commute)

lemma accepted_sound:
  "(s, t, ty, w) \<in> set (accepted seen as)
     \<Longrightarrow> (s, t, ty, w) \<in> set as \<and> s \<noteq> t \<and> link_key s t \<notin> seen"
  by (induction seen as rule: accepted.induct) (auto split: if_splits)

lemma accepted_filter_le:
  "length (filter P (accepted seen as)) \<le> length (filter P as)"
  by (induction seen as rule: accepted.induct) (auto simp: le_SucI)

lemma accepted_distinct_pairs: "distinct (map attempt_pair (accepted seen as))"
proof (induction seen as rule: accepted.induct)
  case (1 seen)
  then show ?case by simp
next
  case (2 seen s t ty w as)
  show ?case
  proof (cases "link_key s t \<notin> seen \<and> s \<noteq> t")
    case True
    have "attempt_pair (s, t, ty, w) \<notin> attempt_pair ` set (accepted (insert (link_key s t) seen) as)"
    proof
      assume "attempt_pair (s, t, ty, w) \<in> attempt_pair ` set (accepted (insert (link_key s t) seen) as)"
      then obtain s' t' ty' w' where
        in': "(s', t', ty', w') \<in> set (accepted (insert (link_key s t) seen) as)"
        and eq: "{s, t} = {s', t'}"
        by auto
      from accepted_sound [OF in'] have "link_key s' t' \<noteq> link_key s t" by simp
      with pair_eq_key_eq [OF eq] show False by simp
    qed
    with True 2 show ?thesis by simp
  next
    case False
    with 2 show ?thesis by auto
  qed
qed

lemma accepted_first_rank:
  assumes "sorted (map (\<lambda>a. stage_rank (attempt_type a)) as)"
    and "l \<in> set (accepted seen as)" and "a \<in> set as" and "attempt_pair a = attempt_pair l"
  shows "stage_rank (attempt_type l) \<le> stage_rank (attempt_type a)"
  using assms
proof (induction seen as rule: accepted.induct)
  case (1 seen)
  then show ?case by simp
next
  case (2 seen s t ty w as)
  obtain ls lt lty lw where l: "l = (ls, lt, lty, lw)" by (cases l) auto
  have sorted_tl: "sorted (map (\<lambda>a. stage_rank (attempt_type a)) as)"
    and least: "\<And>b. b \<in> set as \<Longrightarrow> stage_rank ty \<le> stage_rank (attempt_type b)"
    using "2.prems"(1) by simp_all
  show ?case
  proof (cases "link_key s t \<notin> seen \<and> s \<noteq> t")
    case True
    show ?thesis
    proof (cases "l = (s, t, ty, w)")
      case True
      with least [of a] "2.prems"(3) show ?thesis by auto
    next
      case False
      with True "2.prems"(2)
      have lin: "l \<in> set (accepted (insert (link_key s t) seen) as)" by simp
      show ?thesis
      proof (cases "a = (s, t, ty, w)")
        case True
        with "2.prems"(4) l have "{s, t} = {ls, lt}" by simp
        from pair_eq_key_eq [OF this] accepted_sound [OF lin [unfolded l]]
        show ?thesis by simp
      next
        case False
        with "2.prems"(3) have "a \<in> set as" by simp
        with "2.IH"(1) [OF True sorted_tl lin _ "2.prems"(4)] show ?thesis by simp
      qed
    qed
  next
    case False
    with "2.prems"(2) have lin: "l \<in> set (accepted seen as)" by auto
    show ?thesis
    proof (cases "a = (s, t, ty, w)")
      case True
      with "2.prems"(4) l have eq: "{s, t} = {ls, lt}" by simp
      from accepted_sound [OF lin [unfolded l]] have "ls \<noteq> lt" "link_key ls lt \<notin> seen" by simp_all
      then have "s \<noteq> t" using eq by (metis doubleton_eq_iff)
      moreover have "link_key s t \<notin> seen"
        using pair_eq_key_eq [OF eq] \<open>link_key ls lt \<notin> seen\<close> by simp
      ultimately show ?thesis using False by simp
    next
      case False
      with "2.prems"(3) have "a \<in> set as" by simp
      with "2.IH"(2) [OF \<open>\<not> (link_key s t \<notin> seen \<and> s \<noteq> t)\<close> sorted_tl lin _ "2.prems"(4)]
      show ?thesis by simp
    qed
  qed
qed

subsection \<open>The stages in order\<close>

lemma const_sorted: "(\<forall>a\<in>set as. f a = (k::nat)) \<Longrightarrow> sorted (map f as)"
  by (induction as) auto

lemma sorted_segment:
  assumes "\<forall>a\<in>set xs. f a = (k::nat)" and "sorted (map f ys)" and "\<forall>b\<in>set ys. k' \<le> f b"
    and "k \<le> k'"
  shows "sorted (map f (xs @ ys)) \<and> (\<forall>b\<in>set (xs @ ys). k \<le> f b)"
proof -
  have "\<forall>b\<in>set ys. k \<le> f b" using assms(3,4) by (meson le_trans)
  with assms(1,2) const_sorted [OF assms(1)] show ?thesis
    by (simp add: sorted_append ball_Un)
qed

lemma explicit_attempts_type: "a \<in> set (explicit_attempts ms) \<Longrightarrow> attempt_type a = Explicit"
  by (auto simp: explicit_attempts_def)

lemma sameStep_attempts_type: "a \<in> set (sameStep_attempts ms steps) \<Longrightarrow> attempt_type a = SameStep"
  by (auto simp: sameStep_attempts_def)

lemma sharedModality_attempts_type:
  "a \<in> set (sharedModality_attempts ms) \<Longrightarrow> attempt_type a = SharedModality"
  by (auto simp: sharedModality_attempts_def)

lemma sharedTask_attempts_type:
  "a \<in> set (sharedTask_attempts ms) \<Longrightarrow> attempt_type a = SharedTask"
  by (auto simp: sharedTask_attempts_def)

lemma capped_attempts_type:
  "a \<in> set (capped_attempts maxLinks counts ss) \<Longrightarrow> attempt_type a = Similar"
  by (induction maxLinks counts ss rule: capped_attempts.induct) (auto split: if_splits)

lemma similar_attempts_type:
  "a \<in> set (similar_attempts ms steps threshold maxLinks) \<Longrightarrow> attempt_type a = Similar"
  by (auto simp: similar_attempts_def dest: capped_attempts_type)

lemma link_attempts_sorted:
  "sorted (map (\<lambda>a. stage_rank (attempt_type a)) (link_attempts data opts))"
proof -
  let ?f = "\<lambda>a. stage_rank (attempt_type a)"
  define E where "E = (if showExplicitRelations opts then explicit_attempts (methods data) else [])"
  define S where "S = (if showSameStepLinks opts
    then sameStep_attempts (methods data) (pipelineSteps data) else [])"
  define M where "M = (if showSharedModalityLinks opts
    then sharedModality_attempts (methods data) else [])"
  define T where "T = (if showSharedTaskLinks opts then sharedTask_attempts (methods data) else [])"
  define Z where "Z = (if showSimilarMethods opts
    then similar_attempts (methods data) (pipelineSteps data) (similarityThreshold opts)
           (maxSimilarLinks opts) else [])"
  have E: "\<forall>a\<in>set E. ?f a = 0" by (auto simp: E_def dest!: explicit_attempts_type)
  have S: "\<forall>a\<in>set S. ?f a = 1" by (auto simp: S_def dest!: sameStep_attempts_type)
  have M: "\<forall>a\<in>set M. ?f a = 2" by (auto simp: M_def dest!: sharedModality_attempts_type)
  have T: "\<forall>a\<in>set T. ?f a = 3" by (auto simp: T_def dest!: sharedTask_attempts_type)
  have Z: "\<forall>a\<in>set Z. ?f a = 4" by (auto simp: Z_def dest!: similar_attempts_type)
  have z: "sorted (map ?f Z) \<and> (\<forall>b\<in>set Z. 4 \<le> ?f b)"
    using Z const_sorted [OF Z] by simp
  have t: "sorted (map ?f (T @ Z)) \<and> (\<forall>b\<in>set (T @ Z). 3 \<le> ?f b)"
    by (rule sorted_segment [OF T conjunct1 [OF z] conjunct2 [OF z]]) simp
  have m: "sorted (map ?f (M @ T @ Z)) \<and> (\<forall>b\<in>set (M @ T @ Z). 2 \<le> ?f b)"
    by (rule sorted_segment [OF M conjunct1 [OF t] conjunct2 [OF t]]) simp
  have s: "sorted (map ?f (S @ M @ T @ Z)) \<and> (\<forall>b\<in>set (S @ M @ T @ Z). 1 \<le> ?f b)"
    by (rule sorted_segment [OF S conjunct1 [OF m] conjunct2 [OF m]]) simp
  have "sorted (map ?f (E @ S @ M @ T @ Z)) \<and> (\<forall>b\<in>set (E @ S @ M @ T @ Z). 0 \<le> ?f b)"
    by (rule sorted_segment [OF E conjunct1 [OF s] conjunct2 [OF s]]) simp
  then have "sorted (map ?f (E @ S @ M @ T @ Z))" ..
  then show ?thesis
    unfolding link_attempts_def E_def S_def M_def T_def Z_def .
qed

lemma build_link_accepted:
  "l \<in> set (g_links (buildGraphData colors data opts))
     \<Longrightarrow> \<exists>a\<in>set (accepted {} (link_attempts data opts)). l = attempt_link a"
  by (auto simp: buildGraphData_links)

subsection \<open>No self-loops\<close>

text \<open>
  Claim C10. No link of a built graph joins an identifier to itself, whatever the catalog and
  the options: \<^const>\<open>addLink\<close> refuses a call whose source equals its target, so a method
  that lists its own id among its related ids gets no link from it.
\<close>
theorem build_no_self_loops:
  "\<forall>l\<in>set (g_links (buildGraphData colors data opts)). l_source l \<noteq> l_target l"
proof
  fix l assume "l \<in> set (g_links (buildGraphData colors data opts))"
  then obtain a where a: "a \<in> set (accepted {} (link_attempts data opts))" and l: "l = attempt_link a"
    by (auto dest: build_link_accepted)
  obtain s t ty w where "a = (s, t, ty, w)" by (cases a) auto
  with a l accepted_sound [of s t ty w "{}" "link_attempts data opts"]
  show "l_source l \<noteq> l_target l" by simp
qed

theorem build_no_self_loops_witness:
  "(''a'', ''a'', Explicit, 1) \<in> set (link_attempts small_catalog default_options)
   \<and> attempt_link (''a'', ''b'', Explicit, 1)
       \<in> set (g_links (buildGraphData Map.empty small_catalog default_options))
   \<and> l_source (attempt_link (''a'', ''b'', Explicit, 1))
       \<noteq> l_target (attempt_link (''a'', ''b'', Explicit, 1))
   \<and> attempt_link (''a'', ''a'', Explicit, 1)
       \<notin> set (g_links (buildGraphData Map.empty small_catalog default_options))"
proof -
  have 1: "(''a'', ''a'', Explicit, 1) \<in> set (link_attempts small_catalog default_options)"
    by code_simp
  have 2: "attempt_link (''a'', ''b'', Explicit, 1)
             \<in> set (g_links (buildGraphData Map.empty small_catalog default_options))"
    by code_simp
  have 3: "l_source (attempt_link (''a'', ''a'', Explicit, 1))
             = l_target (attempt_link (''a'', ''a'', Explicit, 1))"
    by simp
  show ?thesis
    using 1 2 3 build_no_self_loops [of Map.empty small_catalog default_options] by blast
qed

subsection \<open>One link per unordered pair, from the earliest stage\<close>

text \<open>
  Claim C1. In a built graph no two links have the same unordered pair of endpoints. Every
  link is one of the calls of \<^const>\<open>addLink\<close> the build makes, and among all calls for its
  pair of endpoints it has the type of the earliest stage, in the order explicit, same-step,
  shared-modality, shared-task, similar.
\<close>
theorem build_one_edge_per_pair:
  "distinct (map link_pair (g_links (buildGraphData colors data opts)))
   \<and> (\<forall>l\<in>set (g_links (buildGraphData colors data opts)).
        (\<exists>a\<in>set (link_attempts data opts). l = attempt_link a)
        \<and> (\<forall>a\<in>set (link_attempts data opts).
              attempt_pair a = link_pair l \<longrightarrow> stage_rank (l_type l) \<le> stage_rank (attempt_type a)))"
proof (intro conjI ballI impI)
  have "map link_pair (g_links (buildGraphData colors data opts))
          = map attempt_pair (accepted {} (link_attempts data opts))"
    by (simp add: buildGraphData_links link_pair_attempt_link comp_def)
  then show "distinct (map link_pair (g_links (buildGraphData colors data opts)))"
    by (simp add: accepted_distinct_pairs)
next
  fix l assume "l \<in> set (g_links (buildGraphData colors data opts))"
  then obtain b where b: "b \<in> set (accepted {} (link_attempts data opts))" and l: "l = attempt_link b"
    by (auto dest: build_link_accepted)
  obtain s t ty w where bt: "b = (s, t, ty, w)" by (cases b) auto
  from accepted_sound [of s t ty w "{}" "link_attempts data opts"] b bt
  have bin: "b \<in> set (link_attempts data opts)" by simp
  with l show "\<exists>a\<in>set (link_attempts data opts). l = attempt_link a" by blast
  fix a assume a: "a \<in> set (link_attempts data opts)" and p: "attempt_pair a = link_pair l"
  from p l have "attempt_pair a = attempt_pair b" by (simp add: link_pair_attempt_link)
  from accepted_first_rank [OF link_attempts_sorted b a this]
  show "stage_rank (l_type l) \<le> stage_rank (attempt_type a)"
    by (simp add: l l_type_attempt_link)
qed

theorem build_one_edge_per_pair_witness:
  "attempt_link (''a'', ''b'', Explicit, 1)
     \<in> set (g_links (buildGraphData Map.empty small_catalog all_options))
   \<and> (''a'', ''b'', SameStep, 0.3) \<in> set (link_attempts small_catalog all_options)
   \<and> attempt_pair (''a'', ''b'', SameStep, 0.3) = link_pair (attempt_link (''a'', ''b'', Explicit, 1))
   \<and> stage_rank (l_type (attempt_link (''a'', ''b'', Explicit, 1)))
       \<le> stage_rank (attempt_type (''a'', ''b'', SameStep, 0.3))
   \<and> distinct (map link_pair (g_links (buildGraphData Map.empty small_catalog all_options)))"
proof -
  have 1: "attempt_link (''a'', ''b'', Explicit, 1)
     \<in> set (g_links (buildGraphData Map.empty small_catalog all_options))"
    by code_simp
  have 2: "(''a'', ''b'', SameStep, 0.3) \<in> set (link_attempts small_catalog all_options)"
    by code_simp
  have 3: "attempt_pair (''a'', ''b'', SameStep, 0.3)
             = link_pair (attempt_link (''a'', ''b'', Explicit, 1))"
    by (simp add: link_pair_def)
  show ?thesis
    using 1 2 3 build_one_edge_per_pair [of Map.empty small_catalog all_options] by blast
qed

subsection \<open>The per-node maximum of similarity links\<close>

lemma incident_attempt_link [simp]:
  "incident k (attempt_link (s, t, ty, w)) \<longleftrightarrow> k = s \<or> k = t"
  by (auto simp: incident_def)

lemma capped_attempts_count:
  "get_or_zero counts k \<le> maxLinks
     \<Longrightarrow> get_or_zero counts k
           + length (filter (\<lambda>a. incident k (attempt_link a)) (capped_attempts maxLinks counts ss))
         \<le> maxLinks"
proof (induction maxLinks counts ss rule: capped_attempts.induct)
  case (1 maxLinks counts)
  then show ?case by simp
next
  case (2 maxLinks counts s ss)
  define c' where "c' = counts(sim_source s \<mapsto> get_or_zero counts (sim_source s) + 1,
                     sim_target s \<mapsto> get_or_zero counts (sim_target s) + 1)"
  show ?case
  proof (cases "get_or_zero counts (sim_source s) < maxLinks
         \<and> get_or_zero counts (sim_target s) < maxLinks")
    case True
    have c': "get_or_zero c' k = (if k = sim_source s \<or> k = sim_target s
                 then get_or_zero counts k + 1 else get_or_zero counts k)"
      by (auto simp: get_or_zero_def c'_def)
    with True "2.prems" have le: "get_or_zero c' k \<le> maxLinks" by auto
    have step: "capped_attempts maxLinks counts (s # ss)
        = (sim_source s, sim_target s, Similar, sim_value s) # capped_attempts maxLinks c' ss"
      using True by (simp add: c'_def)
    have "get_or_zero c' k
           + length (filter (\<lambda>a. incident k (attempt_link a)) (capped_attempts maxLinks c' ss))
         \<le> maxLinks"
      using "2.IH"(1) [OF True] le unfolding c'_def by blast
    then show ?thesis
      unfolding step using c' by (auto split: if_splits)
  next
    case False
    with 2 show ?thesis by auto
  qed
qed

lemma filter_type_empty:
  "(\<forall>a\<in>set as. attempt_type a = ty') \<Longrightarrow> ty' \<noteq> ty
     \<Longrightarrow> filter (\<lambda>a. attempt_type a = ty \<and> P a) as = []"
  by (auto simp: filter_empty_conv)

lemma similar_in_link_attempts:
  "filter (\<lambda>a. attempt_type a = Similar \<and> P a) (link_attempts data opts)
     = (if showSimilarMethods opts
        then filter P (similar_attempts (methods data) (pipelineSteps data)
               (similarityThreshold opts) (maxSimilarLinks opts))
        else [])"
proof -
  have e: "filter (\<lambda>a. attempt_type a = Similar \<and> P a) (explicit_attempts ms) = []" for ms
    by (rule filter_type_empty [where ty' = Explicit]) (simp_all add: explicit_attempts_type)
  have s: "filter (\<lambda>a. attempt_type a = Similar \<and> P a) (sameStep_attempts ms steps) = []"
    for ms steps
    by (rule filter_type_empty [where ty' = SameStep]) (simp_all add: sameStep_attempts_type)
  have m: "filter (\<lambda>a. attempt_type a = Similar \<and> P a) (sharedModality_attempts ms) = []" for ms
    by (rule filter_type_empty [where ty' = SharedModality])
       (simp_all add: sharedModality_attempts_type)
  have t: "filter (\<lambda>a. attempt_type a = Similar \<and> P a) (sharedTask_attempts ms) = []" for ms
    by (rule filter_type_empty [where ty' = SharedTask]) (simp_all add: sharedTask_attempts_type)
  have z: "filter (\<lambda>a. attempt_type a = Similar \<and> P a) (similar_attempts ms steps th mx)
             = filter P (similar_attempts ms steps th mx)" for ms steps th mx
    by (rule filter_cong) (simp_all add: similar_attempts_type)
  show ?thesis
    unfolding link_attempts_def by (simp add: e s m t z)
qed

lemma other_stages_uncapped_example:
  "length (filter (incident ''a'') (g_links (buildGraphData Map.empty small_catalog zero_cap_options)))
     = 2"
  by code_simp

text \<open>
  Claim C3. For every identifier \<open>k\<close>, and so for the id of every node, a built graph has at
  most \<open>maxSimilarLinks\<close> links of type similar with \<open>k\<close> as an endpoint. Only links of type
  similar are counted: the other stages add links without a bound, as the example above shows
  for a maximum of zero.
\<close>
theorem similar_links_capped:
  "length (filter (\<lambda>l. l_type l = Similar \<and> incident k l)
             (g_links (buildGraphData colors data opts)))
     \<le> maxSimilarLinks opts"
proof -
  let ?P = "\<lambda>a. attempt_type a = Similar \<and> incident k (attempt_link a)"
  have "length (filter (\<lambda>l. l_type l = Similar \<and> incident k l)
             (g_links (buildGraphData colors data opts)))
          = length (filter ?P (accepted {} (link_attempts data opts)))"
    by (simp add: buildGraphData_links filter_map comp_def l_type_attempt_link)
  also have "\<dots> \<le> length (filter ?P (link_attempts data opts))"
    by (rule accepted_filter_le)
  also have "\<dots> \<le> maxSimilarLinks opts"
    using capped_attempts_count [of Map.empty k "maxSimilarLinks opts"]
    by (simp add: similar_in_link_attempts similar_attempts_def get_or_zero_def)
  finally show ?thesis .
qed

subsection \<open>Stored degrees\<close>

lemma get_or_zero_upd [simp]:
  "get_or_zero (m(k \<mapsto> v)) k' = (if k' = k then v else get_or_zero m k')"
  by (simp add: get_or_zero_def)

lemma fold_degree_step:
  "get_or_zero (fold degree_step ls m) k
     = get_or_zero m k + length (filter (\<lambda>l. l_source l = k) ls)
         + length (filter (\<lambda>l. l_target l = k) ls)"
  by (induction ls arbitrary: m) (auto simp: degree_step_def Let_def)

lemma incident_count:
  "\<forall>l\<in>set ls. l_source l \<noteq> l_target l
     \<Longrightarrow> length (filter (incident k) ls)
           = length (filter (\<lambda>l. l_source l = k) ls) + length (filter (\<lambda>l. l_target l = k) ls)"
  by (induction ls) (auto simp: incident_def)

lemma buildGraphData_nodes:
  "g_nodes (buildGraphData colors data opts)
     = map (\<lambda>node. node\<lparr>n_degree :=
               Some (get_or_zero (fold degree_step (g_links (buildGraphData colors data opts))
                  Map.empty) (n_id node))\<rparr>)
         (map (make_node colors) (methods data))"
  by (simp add: buildGraphData_def Let_def)


lemma build_links_no_loop:
  "\<forall>l\<in>set (g_links (buildGraphData colors data opts)). l_source l \<noteq> l_target l"
proof
  fix l assume "l \<in> set (g_links (buildGraphData colors data opts))"
  then obtain a where a: "a \<in> set (accepted {} (link_attempts data opts))" and l: "l = attempt_link a"
    by (auto dest: build_link_accepted)
  obtain s t ty w where "a = (s, t, ty, w)" by (cases a) auto
  with a l accepted_sound [of s t ty w "{}" "link_attempts data opts"]
  show "l_source l \<noteq> l_target l" by simp
qed

text \<open>
  Claim C5. The degree stored in a node of a built graph is the number of links of the graph
  that have the node's id as an endpoint, which is the number of links with that source plus
  the number of links with that target.
\<close>
theorem stored_degree_counts_links:
  "\<forall>n\<in>set (g_nodes (buildGraphData colors data opts)).
     n_degree n = Some (length (filter (incident (n_id n)) (g_links (buildGraphData colors data opts))))
     \<and> n_degree n =
         Some (length (filter (\<lambda>l. l_source l = n_id n) (g_links (buildGraphData colors data opts)))
             + length (filter (\<lambda>l. l_target l = n_id n) (g_links (buildGraphData colors data opts))))"
proof
  fix n assume "n \<in> set (g_nodes (buildGraphData colors data opts))"
  then obtain node where n: "n = node\<lparr>n_degree :=
               Some (get_or_zero (fold degree_step (g_links (buildGraphData colors data opts))
                  Map.empty) (n_id node))\<rparr>"
    unfolding buildGraphData_nodes by auto
  have "get_or_zero (fold degree_step (g_links (buildGraphData colors data opts)) Map.empty) (n_id node)
      = length (filter (\<lambda>l. l_source l = n_id node) (g_links (buildGraphData colors data opts)))
        + length (filter (\<lambda>l. l_target l = n_id node) (g_links (buildGraphData colors data opts)))"
    unfolding fold_degree_step by (simp add: get_or_zero_def)
  with n incident_count [OF build_links_no_loop [of colors data opts], of "n_id node"]
  show "n_degree n = Some (length (filter (incident (n_id n)) (g_links (buildGraphData colors data opts))))
     \<and> n_degree n =
         Some (length (filter (\<lambda>l. l_source l = n_id n) (g_links (buildGraphData colors data opts)))
             + length (filter (\<lambda>l. l_target l = n_id n) (g_links (buildGraphData colors data opts))))"
    by simp
qed


theorem stored_degree_counts_links_witness:
  "(make_node Map.empty method_a)\<lparr>n_degree := Some 2\<rparr>
     \<in> set (g_nodes (buildGraphData Map.empty small_catalog default_options))
   \<and> length (filter (incident ''a'') (g_links (buildGraphData Map.empty small_catalog default_options)))
       = 2"
proof -
  have 1: "(make_node Map.empty method_a)\<lparr>n_degree := Some 2\<rparr>
     \<in> set (g_nodes (buildGraphData Map.empty small_catalog default_options))"
    by code_simp
  have 2: "n_id ((make_node Map.empty method_a)\<lparr>n_degree := Some 2\<rparr>) = ''a''"
    by (simp add: make_node_def method_a_def)
  show ?thesis
    using 1 2 stored_degree_counts_links [of Map.empty small_catalog default_options]
    by fastforce
qed

subsection \<open>Similarity links and the threshold\<close>

lemma fold_collect:
  "fold (\<lambda>(a, b) acc. if P a b then acc @ [f a b] else acc) ps acc
     = acc @ map (\<lambda>(a, b). f a b) (filter (\<lambda>(a, b). P a b) ps)"
  by (induction ps arbitrary: acc) auto

lemma collect_similarities_eq:
  "collect_similarities ms steps threshold
     = map (\<lambda>(a, b). \<lparr>sim_source = m_id a, sim_target = m_id b,
                        sim_value = calculateSimilarity a b steps\<rparr>)
         (filter (\<lambda>(a, b). threshold \<le> calculateSimilarity a b steps) (pairs ms))"
  unfolding collect_similarities_def Let_def
  using fold_collect [where P = "\<lambda>a b. threshold \<le> calculateSimilarity a b steps"
      and f = "\<lambda>a b. \<lparr>sim_source = m_id a, sim_target = m_id b,
                        sim_value = calculateSimilarity a b steps\<rparr>" and acc = "[]" and ps = "pairs ms"]
  by simp

lemma pairs_members: "(a, b) \<in> set (pairs xs) \<Longrightarrow> a \<in> set xs \<and> b \<in> set xs"
  by (induction xs) auto

lemma capped_attempts_from:
  "(s, t, ty, w) \<in> set (capped_attempts maxLinks counts ss)
     \<Longrightarrow> \<exists>x\<in>set ss. s = sim_source x \<and> t = sim_target x \<and> w = sim_value x"
  by (induction maxLinks counts ss rule: capped_attempts.induct) (auto split: if_splits)

lemma similar_attempts_from:
  assumes "(s, t, ty, w) \<in> set (similar_attempts ms steps threshold maxLinks)"
  shows "\<exists>a\<in>set ms. \<exists>b\<in>set ms. s = m_id a \<and> t = m_id b
           \<and> w = calculateSimilarity a b steps \<and> threshold \<le> calculateSimilarity a b steps"
proof -
  from capped_attempts_from [OF assms [unfolded similar_attempts_def]]
  obtain x where x: "x \<in> set (collect_similarities ms steps threshold)"
    and e: "s = sim_source x" "t = sim_target x" "w = sim_value x"
    by auto
  from x obtain a b where ab: "(a, b) \<in> set (pairs ms)"
    and th: "threshold \<le> calculateSimilarity a b steps"
    and xe: "x = \<lparr>sim_source = m_id a, sim_target = m_id b,
                        sim_value = calculateSimilarity a b steps\<rparr>"
    unfolding collect_similarities_eq by auto
  from pairs_members [OF ab] e xe th show ?thesis by auto
qed

lemma similar_link_attempt:
  assumes "l \<in> set (g_links (buildGraphData colors data opts))" and "l_type l = Similar"
  shows "showSimilarMethods opts \<and>
    (\<exists>a\<in>set (similar_attempts (methods data) (pipelineSteps data) (similarityThreshold opts)
             (maxSimilarLinks opts)). l = attempt_link a)"
proof -
  from assms(1) obtain a where a: "a \<in> set (accepted {} (link_attempts data opts))"
    and l: "l = attempt_link a"
    by (auto dest: build_link_accepted)
  obtain s t ty w where at: "a = (s, t, ty, w)" by (cases a) auto
  from accepted_sound [of s t ty w "{}" "link_attempts data opts"] a at
  have "a \<in> set (link_attempts data opts)" by simp
  moreover from assms(2) l have "attempt_type a = Similar" by (simp add: l_type_attempt_link)
  ultimately have "a \<in> set (filter (\<lambda>a. attempt_type a = Similar \<and> True) (link_attempts data opts))"
    by simp
  then show ?thesis
    unfolding similar_in_link_attempts using l by (auto split: if_splits)
qed

text \<open>
  Claim C8. Every link of type similar joins two methods of the catalog whose similarity score
  is the link's strength and is at least the threshold. Hence a threshold above the score of
  every pair of methods leaves the graph without links of type similar, whatever the per-node
  maximum.
\<close>
theorem similar_links_reach_threshold:
  "(\<forall>l\<in>set (g_links (buildGraphData colors data opts)).
      l_type l = Similar \<longrightarrow>
        (\<exists>a\<in>set (methods data). \<exists>b\<in>set (methods data).
            l_source l = m_id a \<and> l_target l = m_id b
            \<and> l_strength l = calculateSimilarity a b (pipelineSteps data)
            \<and> similarityThreshold opts \<le> calculateSimilarity a b (pipelineSteps data)))
   \<and> ((\<forall>a\<in>set (methods data). \<forall>b\<in>set (methods data).
          calculateSimilarity a b (pipelineSteps data) < similarityThreshold opts)
        \<longrightarrow> (\<forall>l\<in>set (g_links (buildGraphData colors data opts)). l_type l \<noteq> Similar))"
proof -
  have main: "\<exists>a\<in>set (methods data). \<exists>b\<in>set (methods data).
            l_source l = m_id a \<and> l_target l = m_id b
            \<and> l_strength l = calculateSimilarity a b (pipelineSteps data)
            \<and> similarityThreshold opts \<le> calculateSimilarity a b (pipelineSteps data)"
    if "l \<in> set (g_links (buildGraphData colors data opts))" "l_type l = Similar" for l
  proof -
    from similar_link_attempt [OF that] obtain s t ty w where
      "(s, t, ty, w) \<in> set (similar_attempts (methods data) (pipelineSteps data)
          (similarityThreshold opts) (maxSimilarLinks opts))" and "l = attempt_link (s, t, ty, w)"
      by auto
    with similar_attempts_from [of s t ty w] show ?thesis by auto
  qed
  show ?thesis
  proof (intro conjI ballI impI)
    fix l assume "l \<in> set (g_links (buildGraphData colors data opts))" "l_type l = Similar"
    then show "\<exists>a\<in>set (methods data). \<exists>b\<in>set (methods data).
            l_source l = m_id a \<and> l_target l = m_id b
            \<and> l_strength l = calculateSimilarity a b (pipelineSteps data)
            \<and> similarityThreshold opts \<le> calculateSimilarity a b (pipelineSteps data)"
      by (rule main)
  next
    fix l
    assume low: "\<forall>a\<in>set (methods data). \<forall>b\<in>set (methods data).
          calculateSimilarity a b (pipelineSteps data) < similarityThreshold opts"
      and l: "l \<in> set (g_links (buildGraphData colors data opts))"
    show "l_type l \<noteq> Similar"
    proof
      assume "l_type l = Similar"
      from main [OF l this] low show False by (auto simp: not_le [symmetric])
    qed
  qed
qed

theorem similar_links_reach_threshold_witness:
  "attempt_link (''a'', ''c'', Similar, 0.9)
     \<in> set (g_links (buildGraphData Map.empty small_catalog default_options))
   \<and> similarityThreshold default_options \<le> l_strength (attempt_link (''a'', ''c'', Similar, 0.9))
   \<and> list_all (\<lambda>a. list_all (\<lambda>b.
         calculateSimilarity a b (pipelineSteps small_catalog) < similarityThreshold strict_options)
           (methods small_catalog)) (methods small_catalog)
   \<and> filter (\<lambda>l. l_type l = Similar)
         (g_links (buildGraphData Map.empty small_catalog strict_options)) = []"
proof -
  have 1: "attempt_link (''a'', ''c'', Similar, 0.9)
     \<in> set (g_links (buildGraphData Map.empty small_catalog default_options))"
    by code_simp
  have 2: "l_type (attempt_link (''a'', ''c'', Similar, 0.9)) = Similar"
    by simp
  have 3: "list_all (\<lambda>a. list_all (\<lambda>b.
         calculateSimilarity a b (pipelineSteps small_catalog) < similarityThreshold strict_options)
           (methods small_catalog)) (methods small_catalog)"
    by code_simp
  have a: "similarityThreshold default_options
             \<le> l_strength (attempt_link (''a'', ''c'', Similar, 0.9))"
    using 1 2 similar_links_reach_threshold [of Map.empty small_catalog default_options]
    by force
  have b: "filter (\<lambda>l. l_type l = Similar)
         (g_links (buildGraphData Map.empty small_catalog strict_options)) = []"
    using 3 similar_links_reach_threshold [of Map.empty small_catalog strict_options]
    by (simp add: filter_empty_conv list_all_iff)
  show ?thesis using 1 a 3 b by blast
qed

subsection \<open>Unresolved references\<close>

lemma drop_unresolved_sel [simp]:
  "m_id (drop_unresolved known m) = m_id m"
  "m_pipeline_step (drop_unresolved known m) = m_pipeline_step m"
  "m_modalities (drop_unresolved known m) = m_modalities m"
  "m_tasks (drop_unresolved known m) = m_tasks m"
  "m_tags (drop_unresolved known m) = m_tags m"
  "m_maturity (drop_unresolved known m) = m_maturity m"
  "m_evidence_type (drop_unresolved known m) = m_evidence_type m"
  by (simp_all add: drop_unresolved_def)

lemma drop_unresolved_related [simp]:
  "or_empty (m_related_method_ids (drop_unresolved known m))
     = filter (\<lambda>r. r \<in> known) (or_empty (m_related_method_ids m))"
  by (cases "m_related_method_ids m") (simp_all add: drop_unresolved_def)

lemma calculateSimilarity_drop [simp]:
  "calculateSimilarity (drop_unresolved known a) (drop_unresolved known b) steps
     = calculateSimilarity a b steps"
  by (simp add: calculateSimilarity_def)

lemma pairs_map: "pairs (map f xs) = map (\<lambda>(a, b). (f a, f b)) (pairs xs)"
  by (induction xs) simp_all

lemma explicit_attempts_drop:
  "explicit_attempts (map (drop_unresolved (set (map m_id ms))) ms) = explicit_attempts ms"
  unfolding explicit_attempts_def
  by (simp add: comp_def cong: map_cong)

lemma sameStep_attempts_drop:
  "sameStep_attempts (map (drop_unresolved known) ms) steps = sameStep_attempts ms steps"
  unfolding sameStep_attempts_def
  by (simp add: filter_map pairs_map comp_def case_prod_unfold)

lemma sharedModality_attempts_drop:
  "sharedModality_attempts (map (drop_unresolved known) ms) = sharedModality_attempts ms"
  unfolding sharedModality_attempts_def
  by (simp add: filter_map pairs_map comp_def case_prod_unfold)

lemma sharedTask_attempts_drop:
  "sharedTask_attempts (map (drop_unresolved known) ms) = sharedTask_attempts ms"
  unfolding sharedTask_attempts_def
  by (simp add: filter_map pairs_map comp_def case_prod_unfold)

lemma collect_similarities_drop:
  "collect_similarities (map (drop_unresolved known) ms) steps threshold
     = collect_similarities ms steps threshold"
  unfolding collect_similarities_eq
  by (simp add: filter_map pairs_map comp_def case_prod_unfold)

lemma link_attempts_drop:
  "link_attempts (data\<lparr>methods := map (drop_unresolved (set (map m_id (methods data)))) (methods data)\<rparr>) opts
     = link_attempts data opts"
  unfolding link_attempts_def similar_attempts_def
  using explicit_attempts_drop [of "methods data"]
  by (simp add: sameStep_attempts_drop sharedModality_attempts_drop
      sharedTask_attempts_drop collect_similarities_drop)

lemma pair_attempt_known:
  "(s, t, ty, w) \<in> set (map (\<lambda>(a, b). (m_id a, m_id b, ty', f a b)) (filter P (pairs ms)))
     \<Longrightarrow> s \<in> set (map m_id ms) \<and> t \<in> set (map m_id ms)"
  by (auto dest: pairs_members)

lemma link_attempts_known:
  assumes "(s, t, ty, w) \<in> set (link_attempts data opts)"
  shows "s \<in> set (map m_id (methods data)) \<and> t \<in> set (map m_id (methods data))"
proof -
  have e: "(s, t, ty, w) \<in> set (explicit_attempts ms)
        \<Longrightarrow> s \<in> set (map m_id ms) \<and> t \<in> set (map m_id ms)" for ms
    by (auto simp: explicit_attempts_def)
  have p: "(s, t, ty, w) \<in> set (sameStep_attempts ms steps)
        \<Longrightarrow> s \<in> set (map m_id ms) \<and> t \<in> set (map m_id ms)" for ms steps
    by (auto simp: sameStep_attempts_def dest!: pairs_members)
  have m: "(s, t, ty, w) \<in> set (sharedModality_attempts ms)
        \<Longrightarrow> s \<in> set (map m_id ms) \<and> t \<in> set (map m_id ms)" for ms
    unfolding sharedModality_attempts_def by (rule pair_attempt_known)
  have k: "(s, t, ty, w) \<in> set (sharedTask_attempts ms)
        \<Longrightarrow> s \<in> set (map m_id ms) \<and> t \<in> set (map m_id ms)" for ms
    unfolding sharedTask_attempts_def by (rule pair_attempt_known)
  have z: "(s, t, ty, w) \<in> set (similar_attempts ms steps th mx)
        \<Longrightarrow> s \<in> set (map m_id ms) \<and> t \<in> set (map m_id ms)" for ms steps th mx
    by (auto dest!: similar_attempts_from)
  from assms show ?thesis
    unfolding link_attempts_def
    using e p m k z by (auto split: if_splits)
qed

text \<open>
  Claim C9. The builder is a total function of the catalog, so a related id that names no
  method raises nothing. Both endpoints of every link are ids of methods of the catalog, so
  no link mentions an unresolved id; and the links are those of the catalog in which every
  related-id list has lost its unresolved entries.
\<close>
theorem unresolved_references_dropped:
  "(\<forall>l\<in>set (g_links (buildGraphData colors data opts)).
      l_source l \<in> set (map m_id (methods data)) \<and> l_target l \<in> set (map m_id (methods data)))
   \<and> g_links (buildGraphData colors
        (data\<lparr>methods := map (drop_unresolved (set (map m_id (methods data)))) (methods data)\<rparr>) opts)
       = g_links (buildGraphData colors data opts)"
proof (intro conjI ballI)
  fix l assume "l \<in> set (g_links (buildGraphData colors data opts))"
  then obtain a where a: "a \<in> set (accepted {} (link_attempts data opts))" and l: "l = attempt_link a"
    by (auto dest: build_link_accepted)
  obtain s t ty w where at: "a = (s, t, ty, w)" by (cases a) auto
  from accepted_sound [of s t ty w "{}" "link_attempts data opts"] a at
  have "(s, t, ty, w) \<in> set (link_attempts data opts)" by simp
  from link_attempts_known [OF this] l at
  show "l_source l \<in> set (map m_id (methods data))" "l_target l \<in> set (map m_id (methods data))"
    by simp_all
next
  show "g_links (buildGraphData colors
        (data\<lparr>methods := map (drop_unresolved (set (map m_id (methods data)))) (methods data)\<rparr>) opts)
       = g_links (buildGraphData colors data opts)"
    by (simp only: buildGraphData_links link_attempts_drop)
qed

lemma not_incident_unknown:
  "k \<notin> K \<Longrightarrow> \<forall>l\<in>S. l_source l \<in> K \<and> l_target l \<in> K \<Longrightarrow> l \<in> S \<Longrightarrow> \<not> incident k l"
  by (auto simp: incident_def)

theorem unresolved_references_dropped_witness:
  "''ghost'' \<in> set (or_empty (m_related_method_ids method_a))
   \<and> ''ghost'' \<notin> set (map m_id (methods small_catalog))
   \<and> attempt_link (''a'', ''b'', Explicit, 1)
       \<in> set (g_links (buildGraphData Map.empty small_catalog default_options))
   \<and> filter (incident ''ghost'') (g_links (buildGraphData Map.empty small_catalog default_options))
       = []
   \<and> g_links (buildGraphData Map.empty
        (small_catalog\<lparr>methods :=
           map (drop_unresolved (set (map m_id (methods small_catalog)))) (methods small_catalog)\<rparr>)
        default_options)
       = g_links (buildGraphData Map.empty small_catalog default_options)"
proof -
  have 1: "''ghost'' \<in> set (or_empty (m_related_method_ids method_a))"
    by (simp add: method_a_def)
  have 2: "''ghost'' \<notin> set (map m_id (methods small_catalog))"
    by (simp add: small_catalog_def method_a_def method_b_def method_c_def)
  have 3: "attempt_link (''a'', ''b'', Explicit, 1)
       \<in> set (g_links (buildGraphData Map.empty small_catalog default_options))"
    by code_simp
  note t = unresolved_references_dropped [of Map.empty small_catalog default_options]
  have 4: "\<not> incident ''ghost'' l"
    if "l \<in> set (g_links (buildGraphData Map.empty small_catalog default_options))" for l
    by (rule not_incident_unknown [OF 2 conjunct1 [OF t] that])
  have 5: "filter (incident ''ghost'')
             (g_links (buildGraphData Map.empty small_catalog default_options)) = []"
    unfolding filter_empty_conv using 4 by blast
  show ?thesis
    using 1 2 3 5 conjunct2 [OF t] by blast
qed

section \<open>Properties of the similarity scorer\<close>

lemma shared_length_card:
  "distinct xs \<Longrightarrow> length (shared xs ys) = card (set ys \<inter> set xs)"
  unfolding shared_def by (simp add: distinct_length_filter)

lemma shared_length_commute:
  "distinct xs \<Longrightarrow> distinct ys \<Longrightarrow> length (shared xs ys) = length (shared ys xs)"
  by (simp add: shared_length_card Int_commute)

lemma step_bonus_commute: "step_bonus a b = step_bonus b a"
  by (auto simp: step_bonus_def abs_minus_commute split: option.splits)

lemma step_bonus_nonneg: "0 \<le> step_bonus a b"
  by (auto simp: step_bonus_def split: option.splits)

lemma calculateSimilarity_sum:
  "calculateSimilarity a b steps =
     (if m_id a = m_id b then 0
      else min (real (length (shared (m_modalities a) (m_modalities b))) * 0.25
              + real (length (shared (or_empty (m_tasks a)) (or_empty (m_tasks b)))) * 0.2
              + real (length (shared (or_empty (m_tags a)) (or_empty (m_tags b)))) * 0.1
              + step_bonus (find (\<lambda>s. s_id s = m_pipeline_step a) steps)
                  (find (\<lambda>s. s_id s = m_pipeline_step b) steps)
              + (if m_maturity a = m_maturity b then 0.05 else 0)
              + (if m_evidence_type a = m_evidence_type b then 0.05 else 0)) 1)"
  by (auto simp: calculateSimilarity_def step_bonus_def Let_def split: option.splits)

text \<open>
  Claim C2, as the code has it. The score of two records with equal ids is 0, and every score
  lies between 0 and 1. The score counts the entries of the first record's modality, task and
  tag lists that occur in the second record's lists, so it is the same in both directions
  whenever no list of either record has a repeated entry.
\<close>
theorem calculateSimilarity_properties:
  "(m_id a = m_id b \<longrightarrow> calculateSimilarity a b steps = 0)
   \<and> 0 \<le> calculateSimilarity a b steps
   \<and> calculateSimilarity a b steps \<le> 1
   \<and> (distinct (m_modalities a) \<and> distinct (m_modalities b)
        \<and> distinct (or_empty (m_tasks a)) \<and> distinct (or_empty (m_tasks b))
        \<and> distinct (or_empty (m_tags a)) \<and> distinct (or_empty (m_tags b))
      \<longrightarrow> calculateSimilarity a b steps = calculateSimilarity b a steps)"
proof (intro conjI impI)
  show "calculateSimilarity a b steps = 0" if "m_id a = m_id b"
    using that by (simp add: calculateSimilarity_def)
  show "0 \<le> calculateSimilarity a b steps"
    unfolding calculateSimilarity_sum using step_bonus_nonneg by simp
  show "calculateSimilarity a b steps \<le> 1"
    unfolding calculateSimilarity_sum by simp
  assume d: "distinct (m_modalities a) \<and> distinct (m_modalities b)
        \<and> distinct (or_empty (m_tasks a)) \<and> distinct (or_empty (m_tasks b))
        \<and> distinct (or_empty (m_tags a)) \<and> distinct (or_empty (m_tags b))"
  have 1: "length (shared (m_modalities a) (m_modalities b))
            = length (shared (m_modalities b) (m_modalities a))"
    using d by (simp add: shared_length_commute)
  have 2: "length (shared (or_empty (m_tasks a)) (or_empty (m_tasks b)))
            = length (shared (or_empty (m_tasks b)) (or_empty (m_tasks a)))"
    using d by (simp add: shared_length_commute)
  have 3: "length (shared (or_empty (m_tags a)) (or_empty (m_tags b)))
            = length (shared (or_empty (m_tags b)) (or_empty (m_tags a)))"
    using d by (simp add: shared_length_commute)
  have 4: "step_bonus (find (\<lambda>s. s_id s = m_pipeline_step a) steps)
              (find (\<lambda>s. s_id s = m_pipeline_step b) steps)
            = step_bonus (find (\<lambda>s. s_id s = m_pipeline_step b) steps)
              (find (\<lambda>s. s_id s = m_pipeline_step a) steps)"
    by (rule step_bonus_commute)
  show "calculateSimilarity a b steps = calculateSimilarity b a steps"
    unfolding calculateSimilarity_sum 1 2 3 4 by auto
qed

text \<open>With a repeated entry the two directions differ: a modality listed twice in one record
  and once in the other counts twice from the one side and once from the other.\<close>

theorem calculateSimilarity_not_symmetric:
  "calculateSimilarity method_twice method_once [] \<noteq> calculateSimilarity method_once method_twice []"
  by (simp add: calculateSimilarity_def method_twice_def method_once_def shared_def)

theorem calculateSimilarity_properties_witness:
  "distinct (m_modalities method_a) \<and> distinct (m_modalities method_c)
   \<and> calculateSimilarity method_a method_c (pipelineSteps small_catalog) = 0.9
   \<and> calculateSimilarity method_c method_a (pipelineSteps small_catalog) = 0.9
   \<and> calculateSimilarity method_a method_a (pipelineSteps small_catalog) = 0"
proof -
  have d: "distinct (m_modalities method_a) \<and> distinct (m_modalities method_c)
        \<and> distinct (or_empty (m_tasks method_a)) \<and> distinct (or_empty (m_tasks method_c))
        \<and> distinct (or_empty (m_tags method_a)) \<and> distinct (or_empty (m_tags method_c))"
    by (simp add: method_a_def method_c_def)
  have v: "calculateSimilarity method_a method_c (pipelineSteps small_catalog) = 0.9"
    by code_simp
  show ?thesis
    using d v calculateSimilarity_properties [of method_a method_c "pipelineSteps small_catalog"]
      calculateSimilarity_properties [of method_a method_a "pipelineSteps small_catalog"]
    by simp
qed

section \<open>Properties of the cluster regions\<close>

lemma computeClusterHulls_alt:
  "computeClusterHulls colors nodes steps
     = filter (\<lambda>c. c_nodes c \<noteq> [])
         (map snd (fold push_node nodes
            (fold (\<lambda>step. AList.update (s_id step) (empty_cluster colors step)) steps [])))"
  unfolding computeClusterHulls_def Let_def push_node_def empty_cluster_def by simp

lemma create_clusters:
  assumes "distinct (map fst cl)"
    and "\<And>k c. map_of cl k = Some c \<Longrightarrow> c_id c = k \<and> c_nodes c = []"
  shows "distinct (map fst (fold (\<lambda>step. AList.update (s_id step) (empty_cluster colors step)) steps cl))
    \<and> fst ` set (fold (\<lambda>step. AList.update (s_id step) (empty_cluster colors step)) steps cl)
        = fst ` set cl \<union> s_id ` set steps
    \<and> (\<forall>k c. map_of (fold (\<lambda>step. AList.update (s_id step) (empty_cluster colors step)) steps cl) k
           = Some c \<longrightarrow> c_id c = k \<and> c_nodes c = [])"
  using assms
proof (induction steps arbitrary: cl)
  case Nil
  then show ?case by simp
next
  case (Cons step steps)
  let ?cl = "AList.update (s_id step) (empty_cluster colors step) cl"
  have d: "distinct (map fst ?cl)" using Cons.prems(1) by (rule distinct_update)
  have i: "c_id c = k \<and> c_nodes c = []" if "map_of ?cl k = Some c" for k c
    using that Cons.prems(2) [of k c]
    by (auto simp: update_conv' empty_cluster_def split: if_splits)
  from Cons.IH [OF d i] show ?case
    by (auto simp: dom_update)
qed

lemma push_nodes:
  assumes "distinct (map fst cl)"
  shows "map fst (fold push_node nodes cl) = map fst cl
    \<and> (\<forall>k. map_of (fold push_node nodes cl) k
          = map_option (\<lambda>c. c\<lparr>c_nodes := c_nodes c @ filter (\<lambda>n. n_pipelineStep n = k) nodes\<rparr>)
              (map_of cl k))"
  using assms
proof (induction nodes arbitrary: cl)
  case Nil
  then show ?case by (simp add: option.map_ident)
next
  case (Cons node nodes)
  show ?case
  proof (cases "map_of cl (n_pipelineStep node)")
    case None
    then have p: "push_node node cl = cl" by (simp add: push_node_def)
    from Cons.IH [OF Cons.prems] None show ?thesis
      unfolding fold_simps p by (auto simp: map_option_case split: option.splits)
  next
    case (Some c)
    let ?cl = "AList.update (n_pipelineStep node) (c\<lparr>c_nodes := c_nodes c @ [node]\<rparr>) cl"
    have p: "push_node node cl = ?cl" using Some by (simp add: push_node_def)
    have "n_pipelineStep node \<in> fst ` set cl" using Some by (force dest: map_of_SomeD)
    then have keys: "map fst ?cl = map fst cl" by (simp add: update_keys)
    with Cons.prems have d: "distinct (map fst ?cl)" by simp
    from Cons.IH [OF d] Some keys show ?thesis
      unfolding fold_simps p by (auto simp: update_conv' map_option_case split: option.splits)
  qed
qed

lemma cluster_table:
  "\<exists>cl. distinct (map fst cl) \<and> fst ` set cl = s_id ` set steps
     \<and> (\<forall>(k, c)\<in>set cl. c_id c = k \<and> c_nodes c = filter (\<lambda>n. n_pipelineStep n = k) nodes)
     \<and> computeClusterHulls colors nodes steps = filter (\<lambda>c. c_nodes c \<noteq> []) (map snd cl)"
proof -
  let ?c1 = "fold (\<lambda>step. AList.update (s_id step) (empty_cluster colors step)) steps []"
  let ?c2 = "fold push_node nodes ?c1"
  have 1: "distinct (map fst ?c1) \<and> fst ` set ?c1 = s_id ` set steps
    \<and> (\<forall>k c. map_of ?c1 k = Some c \<longrightarrow> c_id c = k \<and> c_nodes c = [])"
    using create_clusters [of "[]" colors steps] by simp
  then have d1: "distinct (map fst ?c1)" by blast
  note 2 = push_nodes [OF d1, of nodes]
  have d2: "distinct (map fst ?c2)" using 2 d1 by simp
  have k2: "fst ` set ?c2 = s_id ` set steps"
  proof -
    have "fst ` set ?c2 = set (map fst ?c2)" by simp
    also have "\<dots> = set (map fst ?c1)" using 2 by simp
    also have "\<dots> = s_id ` set steps" using 1 by simp
    finally show ?thesis .
  qed
  have i2: "c_id c = k \<and> c_nodes c = filter (\<lambda>n. n_pipelineStep n = k) nodes"
    if "(k, c) \<in> set ?c2" for k c
  proof -
    from that d2 have "map_of ?c2 k = Some c" by simp
    with 2 obtain c0 where c0: "map_of ?c1 k = Some c0"
      and c: "c = c0\<lparr>c_nodes := c_nodes c0 @ filter (\<lambda>n. n_pipelineStep n = k) nodes\<rparr>"
      by auto
    from 1 c0 have "c_id c0 = k \<and> c_nodes c0 = []" by blast
    with c show ?thesis by simp
  qed
  show ?thesis
    by (rule exI [of _ ?c2]) (use d2 k2 i2 computeClusterHulls_alt in auto)
qed

lemma filter_key_once:
  "distinct (map f xs) \<Longrightarrow> x \<in> set xs \<Longrightarrow> length (filter (\<lambda>y. f y = f x) xs) = 1"
proof (induction xs)
  case Nil
  then show ?case by simp
next
  case (Cons a xs)
  show ?case
  proof (cases "x = a")
    case True
    with Cons.prems have "filter (\<lambda>y. f y = f a) xs = []"
      by (auto simp: filter_empty_conv image_iff)
    with True show ?thesis by simp
  next
    case False
    with Cons.prems have "x \<in> set xs" "f a \<noteq> f x" by (auto simp: image_iff)
    with Cons show ?thesis by simp
  qed
qed

lemma regions:
  "distinct (map c_id (computeClusterHulls colors nodes steps))
   \<and> (\<forall>c\<in>set (computeClusterHulls colors nodes steps).
         c_nodes c = filter (\<lambda>n. n_pipelineStep n = c_id c) nodes \<and> c_nodes c \<noteq> []
         \<and> c_id c \<in> s_id ` set steps)
   \<and> (\<forall>n\<in>set nodes. n_pipelineStep n \<in> s_id ` set steps
         \<longrightarrow> n_pipelineStep n \<in> c_id ` set (computeClusterHulls colors nodes steps))"
proof -
  from cluster_table [of steps nodes colors] obtain cl where
    d: "distinct (map fst cl)" and k: "fst ` set cl = s_id ` set steps"
    and i0: "\<forall>(k, c)\<in>set cl. c_id c = k \<and> c_nodes c = filter (\<lambda>n. n_pipelineStep n = k) nodes"
    and r: "computeClusterHulls colors nodes steps = filter (\<lambda>c. c_nodes c \<noteq> []) (map snd cl)"
    by blast
  have i: "c_id c = k \<and> c_nodes c = filter (\<lambda>n. n_pipelineStep n = k) nodes"
    if "(k, c) \<in> set cl" for k c
    using i0 that by blast
  have ids: "map c_id (map snd cl) = map fst cl"
    using i by auto
  have "distinct (map c_id (map snd cl))" unfolding ids by (rule d)
  then have 1: "distinct (map c_id (computeClusterHulls colors nodes steps))"
    unfolding r by (simp add: distinct_map_filter)
  have 2: "c_nodes c = filter (\<lambda>n. n_pipelineStep n = c_id c) nodes \<and> c_nodes c \<noteq> []
         \<and> c_id c \<in> s_id ` set steps"
    if "c \<in> set (computeClusterHulls colors nodes steps)" for c
  proof -
    from that r obtain k0 where kc: "(k0, c) \<in> set cl" and ne: "c_nodes c \<noteq> []" by auto
    from i [OF kc] have "c_id c = k0" "c_nodes c = filter (\<lambda>n. n_pipelineStep n = k0) nodes"
      by simp_all
    moreover from kc k have "k0 \<in> s_id ` set steps" by (metis fst_conv image_eqI)
    ultimately show ?thesis using ne by simp
  qed
  have 3: "n_pipelineStep n \<in> c_id ` set (computeClusterHulls colors nodes steps)"
    if "n \<in> set nodes" "n_pipelineStep n \<in> s_id ` set steps" for n
  proof -
    from that(2) k obtain c where kc: "(n_pipelineStep n, c) \<in> set cl" by force
    from i [OF kc] that(1) have "c_id c = n_pipelineStep n" "n \<in> set (c_nodes c)" by simp_all
    then have "c \<in> set (computeClusterHulls colors nodes steps)" "c_id c = n_pipelineStep n"
      using kc unfolding r by force+
    then show ?thesis by (metis image_eqI)
  qed
  from 1 2 3 show ?thesis by blast
qed

text \<open>
  Claim C6, as the code has it. A node whose pipeline-step id is the id of one of the pipeline
  steps lies in exactly one region; a node whose pipeline-step id is the id of no pipeline step
  lies in no region; a region that holds a node has the node's pipeline-step id as its id; and
  no region of the result is empty.
\<close>
theorem cluster_regions_partition_known_steps:
  "(\<forall>n\<in>set nodes.
      (n_pipelineStep n \<in> set (map s_id steps) \<longrightarrow>
         length (filter (\<lambda>c. n \<in> set (c_nodes c)) (computeClusterHulls colors nodes steps)) = 1)
      \<and> (n_pipelineStep n \<notin> set (map s_id steps) \<longrightarrow>
         filter (\<lambda>c. n \<in> set (c_nodes c)) (computeClusterHulls colors nodes steps) = [])
      \<and> (\<forall>c\<in>set (computeClusterHulls colors nodes steps).
            n \<in> set (c_nodes c) \<longrightarrow> c_id c = n_pipelineStep n))
   \<and> (\<forall>c\<in>set (computeClusterHulls colors nodes steps). c_nodes c \<noteq> [])"
proof -
  let ?R = "computeClusterHulls colors nodes steps"
  note r = regions [of colors nodes steps]
  have mem: "n \<in> set (c_nodes c) \<longleftrightarrow> c_id c = n_pipelineStep n"
    if "n \<in> set nodes" "c \<in> set ?R" for n c
    using r that by auto
  have one: "length (filter (\<lambda>c. n \<in> set (c_nodes c)) ?R) = 1"
    if n: "n \<in> set nodes" and s: "n_pipelineStep n \<in> set (map s_id steps)" for n
  proof -
    from r n s obtain c where c: "c \<in> set ?R" "c_id c = n_pipelineStep n" by auto
    have "filter (\<lambda>c. n \<in> set (c_nodes c)) ?R = filter (\<lambda>c'. c_id c' = c_id c) ?R"
      by (rule filter_cong) (simp_all add: mem [OF n] c)
    also have "length \<dots> = 1" using r c(1) by (intro filter_key_once) simp_all
    finally show ?thesis .
  qed
  have none: "filter (\<lambda>c. n \<in> set (c_nodes c)) ?R = []"
    if n: "n \<in> set nodes" and s: "n_pipelineStep n \<notin> set (map s_id steps)" for n
    unfolding filter_empty_conv
  proof
    fix c assume c: "c \<in> set ?R"
    with r have "c_id c \<in> s_id ` set steps" by blast
    with s mem [OF n c] show "\<not> n \<in> set (c_nodes c)" by auto
  qed
  from one none mem r show ?thesis by blast
qed

text \<open>A node of an unknown step is in no region, so not every node is in exactly one.\<close>

theorem cluster_regions_orphan_node:
  "make_node Map.empty method_orphan \<in> set example_nodes
   \<and> length (filter (\<lambda>c. make_node Map.empty method_orphan \<in> set (c_nodes c))
         (computeClusterHulls Map.empty example_nodes (pipelineSteps small_catalog))) = 0"
  by code_simp

theorem cluster_regions_partition_known_steps_witness:
  "make_node Map.empty method_a \<in> set example_nodes
   \<and> n_pipelineStep (make_node Map.empty method_a) \<in> set (map s_id (pipelineSteps small_catalog))
   \<and> length (filter (\<lambda>c. make_node Map.empty method_a \<in> set (c_nodes c))
         (computeClusterHulls Map.empty example_nodes (pipelineSteps small_catalog))) = 1
   \<and> map c_id (computeClusterHulls Map.empty example_nodes (pipelineSteps small_catalog))
       = [''collect'', ''abstract'']"
proof -
  have 1: "make_node Map.empty method_a \<in> set example_nodes"
    by (simp add: example_nodes_def)
  have 2: "n_pipelineStep (make_node Map.empty method_a)
             \<in> set (map s_id (pipelineSteps small_catalog))"
    by code_simp
  have 3: "map c_id (computeClusterHulls Map.empty example_nodes (pipelineSteps small_catalog))
       = [''collect'', ''abstract'']"
    by code_simp
  note t = cluster_regions_partition_known_steps
    [of example_nodes "pipelineSteps small_catalog" Map.empty]
  have 4: "length (filter (\<lambda>c. make_node Map.empty method_a \<in> set (c_nodes c))
         (computeClusterHulls Map.empty example_nodes (pipelineSteps small_catalog))) = 1"
    using bspec [OF conjunct1 [OF t] 1] 2 by blast
  show ?thesis using 1 2 3 4 by blast
qed

section \<open>Properties of the semantic zoom\<close>

text \<open>
  Claim C7. Once the graph elements exist, a call of \<^verbatim>\<open>updateSemanticZoom\<close> with a scale
  sets the radius of a node circle to 0.6 times its base radius below 0.45, to 0.8 times below
  0.7 and to the base radius from there on, so for a base radius that is not negative the
  radius does not shrink when the scale grows; it leaves no detail card below 1.5 and one
  card per node from 1.5 on, the full card from 2.2 on.
\<close>

theorem semantic_zoom_radius_and_cards:
  "\<exists>ev. zv_elements (updateSemanticZoom True nodes scale) = Some ev
     \<and> ev_nodeRadius ev r = (if scale < 0.45 then r * 0.6 else if scale < 0.7 then r * 0.8 else r)
     \<and> (\<forall>scale' ev'. scale \<le> scale' \<and> 0 \<le> r
            \<and> zv_elements (updateSemanticZoom True nodes scale') = Some ev'
          \<longrightarrow> ev_nodeRadius ev r \<le> ev_nodeRadius ev' r)
     \<and> (scale < 1.5 \<longrightarrow> ev_detailCards ev = [])
     \<and> (1.5 \<le> scale \<longrightarrow> map dc_node (ev_detailCards ev) = map n_id nodes
            \<and> (\<forall>d\<in>set (ev_detailCards ev). dc_full d \<longleftrightarrow> 2.2 \<le> scale))"
proof -
  define ev where "ev = the (zv_elements (updateSemanticZoom True nodes scale))"
  have e: "zv_elements (updateSemanticZoom True nodes scale) = Some ev"
    by (simp add: ev_def updateSemanticZoom_def Let_def)
  have rad: "ev_nodeRadius (the (zv_elements (updateSemanticZoom True nodes s))) r
               = (if s < 0.45 then r * 0.6 else if s < 0.7 then r * 0.8 else r)" for s
    by (simp add: updateSemanticZoom_def ZOOM_LEVELS_def Let_def)
  have mono: "ev_nodeRadius ev r \<le> ev_nodeRadius ev' r"
    if "scale \<le> scale'" "0 \<le> r" "zv_elements (updateSemanticZoom True nodes scale') = Some ev'"
    for scale' ev'
  proof -
    from that(3) have "ev' = the (zv_elements (updateSemanticZoom True nodes scale'))" by simp
    with that(1,2) show ?thesis
      unfolding ev_def by (simp only: rad) (auto simp: mult_left_mono)
  qed
  have low: "ev_detailCards ev = []" if "scale < 1.5"
    using that
    by (simp add: ev_def updateSemanticZoom_def ZOOM_LEVELS_def updateDetailCards_def Let_def)
  have high: "map dc_node (ev_detailCards ev) = map n_id nodes
            \<and> (\<forall>d\<in>set (ev_detailCards ev). dc_full d \<longleftrightarrow> 2.2 \<le> scale)" if "1.5 \<le> scale"
    using that
    by (auto simp: ev_def updateSemanticZoom_def ZOOM_LEVELS_def updateDetailCards_def Let_def
        comp_def)
  have r0: "ev_nodeRadius ev r
              = (if scale < 0.45 then r * 0.6 else if scale < 0.7 then r * 0.8 else r)"
    unfolding ev_def by (rule rad)
  show ?thesis
    using e r0 mono low high by blast
qed

theorem semantic_zoom_radius_and_cards_witness:
  "(\<exists>ev. zv_elements (updateSemanticZoom True example_nodes 0.3) = Some ev
      \<and> ev_nodeRadius ev 10 = 6 \<and> ev_detailCards ev = [])
   \<and> (\<exists>ev'. zv_elements (updateSemanticZoom True example_nodes 2) = Some ev'
      \<and> ev_nodeRadius ev' 10 = 10
      \<and> map dc_node (ev_detailCards ev') = [''a'', ''b'', ''c'', ''o''])"
proof -
  have ids: "map n_id example_nodes = [''a'', ''b'', ''c'', ''o'']"
    by code_simp
  from semantic_zoom_radius_and_cards [of example_nodes "0.3" 10]
  have a: "\<exists>ev. zv_elements (updateSemanticZoom True example_nodes 0.3) = Some ev
      \<and> ev_nodeRadius ev 10 = 6 \<and> ev_detailCards ev = []"
    by auto
  from semantic_zoom_radius_and_cards [of example_nodes 2 10] ids
  have b: "\<exists>ev'. zv_elements (updateSemanticZoom True example_nodes 2) = Some ev'
      \<and> ev_nodeRadius ev' 10 = 10
      \<and> map dc_node (ev_detailCards ev') = [''a'', ''b'', ''c'', ''o'']"
    by auto
  from a b show ?thesis by blast
qed

section \<open>Properties of the handle\<close>

text \<open>
  Claim C4. For a container of width zero \<^verbatim>\<open>createRelationshipGraph\<close> returns an object that
  has the properties \<^verbatim>\<open>update\<close> and \<^verbatim>\<open>destroy\<close> only: these two do nothing, and a call of
  \<^verbatim>\<open>zoomToFit\<close>, \<^verbatim>\<open>zoomIn\<close>, \<^verbatim>\<open>zoomOut\<close> or \<^verbatim>\<open>resetSimulation\<close> on it raises a
  \<^verbatim>\<open>TypeError\<close>, where the claim asks for a no-op. The handle of a container with a
  width has all six.
\<close>

theorem zero_width_handle_lacks_zoom:
  "call_handle (createRelationshipGraph 0) Update = Inr []
   \<and> call_handle (createRelationshipGraph 0) Destroy = Inr []
   \<and> call_handle (createRelationshipGraph 0) ZoomIn = Inl TypeError
   \<and> call_handle (createRelationshipGraph 0) ZoomOut = Inl TypeError
   \<and> call_handle (createRelationshipGraph 0) ZoomToFit = Inl TypeError
   \<and> call_handle (createRelationshipGraph 0) ResetSimulation = Inl TypeError
   \<and> call_handle (createRelationshipGraph 800) ZoomIn = Inr [ZoomScaleBy 1.3]"
  by (simp add: call_handle_def createRelationshipGraph_def)


end
